theory Spec2Isabelle
  imports Main "HOL-Library.Word"
begin

unbundle bit_operations_syntax

section \<open>Common types\<close>

text \<open>
  Pointers are addresses; a pointer that may be \<open>NULL\<close> is an \<open>addr option\<close>.
  The \<open>int\<close> return codes, error numbers and slot indices of the C code are modelled as
  mathematical integers: the code only stores and compares them.  Status words, sizes and
  ring lengths, on which the code computes, are machine words.
\<close>

type_synonym addr = nat

text \<open>
  What the model does where C has no defined behaviour: the function stops with a fault.
\<close>

datatype fault =
    OutOfBounds      \<comment> \<open>access to a slot outside the allocated block\<close>
  | NullDeref        \<comment> \<open>member access through \<open>NULL\<close>\<close>
  | InvalidPointer   \<comment> \<open>access to or free of an object that is not (or no longer) allocated\<close>
  | UninitRead       \<comment> \<open>read of a field that was never written after \<open>malloc\<close>\<close>
  | IntOverflow      \<comment> \<open>signed overflow of an \<open>int\<close>\<close>

section \<open>caio/caio.h: task status and the control-flow macros\<close>

text \<open>\<open>enum caio_taskstatus\<close>: single-bit flags.\<close>

definition CAIO_IDLE :: "32 word" where "CAIO_IDLE = 1"
definition CAIO_RUNNING :: "32 word" where "CAIO_RUNNING = 2"
definition CAIO_WAITING :: "32 word" where "CAIO_WAITING = 4"
definition CAIO_TERMINATING :: "32 word" where "CAIO_TERMINATING = 8"
definition CAIO_TERMINATED :: "32 word" where "CAIO_TERMINATED = 16"

text \<open>\<open>struct caio_task\<close>.\<close>

record caio_task =
  caio :: "addr option"
  current :: "addr option"
  status :: "32 word"
  eno :: int

text \<open>
  The macros \<open>CAIO_RETURN\<close>, \<open>CAIO_THROW\<close> and \<open>CAIO_RETHROW\<close> write to the task and
  then leave the coroutine body with \<open>return\<close>; the model is the task they leave behind.
\<close>

definition CAIO_RETURN :: "caio_task \<Rightarrow> caio_task" where
  "CAIO_RETURN task = (task\<lparr>eno := 0\<rparr>)\<lparr>status := CAIO_TERMINATING\<rparr>"

definition CAIO_THROW :: "caio_task \<Rightarrow> int \<Rightarrow> caio_task" where
  "CAIO_THROW task n = (task\<lparr>eno := n\<rparr>)\<lparr>status := CAIO_TERMINATING\<rparr>"

definition CAIO_RETHROW :: "caio_task \<Rightarrow> caio_task" where
  "CAIO_RETHROW task = task\<lparr>status := CAIO_TERMINATING\<rparr>"

definition CAIO_HASERROR :: "caio_task \<Rightarrow> bool" where
  "CAIO_HASERROR task = (eno task \<noteq> 0)"

definition CAIO_ISERROR :: "caio_task \<Rightarrow> int \<Rightarrow> bool" where
  "CAIO_ISERROR task e = (CAIO_HASERROR task \<and> eno task = e)"

definition CAIO_CLEARERROR :: "caio_task \<Rightarrow> caio_task" where
  "CAIO_CLEARERROR task = task\<lparr>eno := 0\<rparr>"

section \<open>caio/io\_uring.c: ring setup\<close>

text \<open>
  The fields of \<open>struct io_uring_params\<close> that \<open>caio_io_uring_init\<close> reads, and the two
  fields of \<open>struct caio_io_uring\<close> that it writes.  A mapping address is a 64-bit word;
  \<open>MAP_FAILED\<close> is \<open>(void *) -1\<close>.
\<close>

record io_uring_params =
  sq_entries :: "32 word"
  cq_entries :: "32 word"
  features :: "32 word"
  sq_off_array :: "32 word"
  cq_off_cqes :: "32 word"

record caio_io_uring =
  ringfd :: int
  sqes :: "64 word"

definition MAP_FAILED :: "64 word" where "MAP_FAILED = - 1"
definition IORING_FEAT_SINGLE_MMAP :: "32 word" where "IORING_FEAT_SINGLE_MMAP = 1"
definition IORING_OFF_SQ_RING :: "64 word" where "IORING_OFF_SQ_RING = 0"
definition IORING_OFF_CQ_RING :: "64 word" where "IORING_OFF_CQ_RING = 0x8000000"
definition IORING_OFF_SQES :: "64 word" where "IORING_OFF_SQES = 0x10000000"
definition sizeof_u32 :: "64 word" where "sizeof_u32 = 4"
definition sizeof_io_uring_cqe :: "64 word" where "sizeof_io_uring_cqe = 16"
definition sizeof_io_uring_sqe :: "64 word" where "sizeof_io_uring_sqe = 64"

text \<open>
  The kernel is the environment of this function: \<open>io_uring_setup\<close> takes the number of
  entries and answers with a descriptor (negative on failure) and the filled parameter
  block; \<open>mmap\<close> takes the length, the descriptor and the offset (the address hint,
  protection and flags are the same constants in all three calls) and answers with an
  address or \<open>MAP_FAILED\<close>.
\<close>

record kernel =
  io_uring_setup :: "32 word \<Rightarrow> int \<times> io_uring_params"
  mmap :: "64 word \<Rightarrow> int \<Rightarrow> 64 word \<Rightarrow> 64 word"

text \<open>Conversion of a \<open>size_t\<close> to \<open>int\<close>: the low 32 bits, read as two's complement.\<close>

definition int_of_size_t :: "64 word \<Rightarrow> int" where
  "int_of_size_t w = sint (ucast w :: 32 word)"

definition size_t_of_int :: "int \<Rightarrow> 64 word" where
  "size_t_of_int i = word_of_int i"

definition caio_io_uring_init :: "kernel \<Rightarrow> caio_io_uring \<Rightarrow> 64 word \<Rightarrow> int \<times> caio_io_uring" where
  "caio_io_uring_init k u maxtasks =
    (let (fd, p) = io_uring_setup k (ucast maxtasks);
         u = u\<lparr>ringfd := fd\<rparr>
     in if ringfd u < 0 then (- 1, u)
        else
          let sqringlen = int_of_size_t (ucast (sq_off_array p) + ucast (sq_entries p) * sizeof_u32);
              cqringlen = int_of_size_t (ucast (cq_off_cqes p) + ucast (cq_entries p) * sizeof_io_uring_cqe);
              single = (features p AND IORING_FEAT_SINGLE_MMAP \<noteq> 0);
              sqringlen = (if single \<and> cqringlen > sqringlen then cqringlen else sqringlen);
              cqringlen = (if single then sqringlen else cqringlen);
              sq = mmap k (size_t_of_int sqringlen) (ringfd u) IORING_OFF_SQ_RING
          in if sq = MAP_FAILED then (- 1, u)
             else
               let cq = (if single then sq
                         else mmap k (size_t_of_int cqringlen) (ringfd u) IORING_OFF_CQ_RING)
               in if \<not> single \<and> cq = MAP_FAILED then (1, u)
                  else
                    let u = u\<lparr>sqes := mmap k (ucast (sq_entries p) * sizeof_io_uring_sqe)
                                         (ringfd u) IORING_OFF_SQES\<rparr>
                    in if sqes u = MAP_FAILED then (1, u) else (0, u))"

text \<open>
  A kernel that sets the ring up (descriptor 3, four entries, no single-mapping feature)
  and maps the submission ring, but refuses the completion ring; one that maps both
  rings but refuses the array of submission entries; and one that maps all three.
\<close>

definition params4 :: io_uring_params where
  "params4 = \<lparr>sq_entries = 4, cq_entries = 8, features = 0, sq_off_array = 64, cq_off_cqes = 64\<rparr>"

definition kernel_cq_fails :: kernel where
  "kernel_cq_fails =
     \<lparr>io_uring_setup = (\<lambda>entries. (3, params4)),
      mmap = (\<lambda>len fd off. if off = IORING_OFF_SQ_RING then 0x7f0000000000 else MAP_FAILED)\<rparr>"

definition kernel_sqes_fails :: kernel where
  "kernel_sqes_fails =
     \<lparr>io_uring_setup = (\<lambda>entries. (3, params4)),
      mmap = (\<lambda>len fd off. if off = IORING_OFF_SQES then MAP_FAILED else 0x7f0000000000 + off)\<rparr>"

definition kernel_ok :: kernel where
  "kernel_ok =
     \<lparr>io_uring_setup = (\<lambda>entries. (3, params4)),
      mmap = (\<lambda>len fd off. 0x7f0000000000 + off)\<rparr>"

definition uring0 :: caio_io_uring where
  "uring0 = \<lparr>ringfd = 0, sqes = 0\<rparr>"

section \<open>taskpool.c: the task pool\<close>

text \<open>
  \<open>taskpool.h\<close> is not among the sources.  The pool's fields are those \<open>taskpool.c\<close>
  uses (\<open>tasks\<close>, \<open>last\<close>, \<open>count\<close>, \<open>size\<close>; the two counters are \<open>size_t\<close> as in
  \<open>struct caio_taskpool\<close> of \<open>caio.h\<close>), a slot is the \<open>struct caio_task\<close> of
  \<open>caio/caio.h\<close>, and the status that \<open>taskpool.c\<close> calls \<open>CAIO_WAITINGIO\<close> is the flag
  \<open>CAIO_WAITING\<close> of that header.

  \<open>tasks\<close> is the block that \<open>calloc\<close> returned, one entry per slot.  A pointer into the
  pool is the number of slots between it and \<open>pool->tasks\<close>; \<open>last_p\<close> is \<open>pool->last\<close> in
  the same unit.  Reading or writing a slot outside the block is a fault.
\<close>

definition CAIO_WAITINGIO :: "32 word" where "CAIO_WAITINGIO = CAIO_WAITING"

record caio_taskpool =
  tasks :: "caio_task list"
  last_p :: nat
  count_p :: "64 word"
  size_p :: "64 word"

text \<open>The macro \<open>TASK_RESET\<close>.\<close>

definition TASK_RESET :: "caio_task \<Rightarrow> 32 word \<Rightarrow> caio_task" where
  "TASK_RESET t s = ((t\<lparr>status := s\<rparr>)\<lparr>eno := 0\<rparr>)\<lparr>current := None\<rparr>"

text \<open>A slot as \<open>calloc\<close> and \<open>memset\<close> leave it: every byte zero.\<close>

definition zero_task :: caio_task where
  "zero_task = \<lparr>caio = None, current = None, status = 0, eno = 0\<rparr>"

text \<open>The \<open>while\<close> loop of \<open>caio_taskpool_next\<close>, and the function.\<close>

function caio_taskpool_next_loop :: "caio_taskpool \<Rightarrow> nat \<Rightarrow> 32 word \<Rightarrow> fault + nat option" where
  "caio_taskpool_next_loop pool task statuses =
     (if task \<le> last_p pool then
        (if task < length (tasks pool) then
           (if status (tasks pool ! task) AND statuses \<noteq> 0 then Inr (Some task)
            else caio_taskpool_next_loop pool (task + 1) statuses)
         else Inl OutOfBounds)
      else Inr None)"
  by pat_completeness auto
termination
  by (relation "measure (\<lambda>(pool, task, statuses). Suc (last_p pool) - task)") auto

declare caio_taskpool_next_loop.simps [simp del]

definition caio_taskpool_next :: "caio_taskpool \<Rightarrow> nat option \<Rightarrow> 32 word \<Rightarrow> fault + nat option" where
  "caio_taskpool_next pool task statuses =
     caio_taskpool_next_loop pool (case task of None \<Rightarrow> 0 | Some t \<Rightarrow> t) statuses"

text \<open>\<open>TASK_RESET(task, s)\<close> on the slot that \<open>task\<close> points to.\<close>

definition write_task :: "caio_taskpool \<Rightarrow> nat \<Rightarrow> 32 word \<Rightarrow> fault + caio_taskpool" where
  "write_task pool task s =
     (if task < length (tasks pool)
      then Inr (pool\<lparr>tasks := (tasks pool)[task := TASK_RESET (tasks pool ! task) s]\<rparr>)
      else Inl OutOfBounds)"

definition caio_taskpool_release ::
    "caio_taskpool option \<Rightarrow> nat option \<Rightarrow> fault + (int \<times> caio_taskpool option)" where
  "caio_taskpool_release pool task =
     (case pool of
        None \<Rightarrow> Inr (- 1, pool)
      | Some p \<Rightarrow>
          (case task of
             None \<Rightarrow> Inr (- 1, pool)
           | Some t \<Rightarrow>
               (case write_task p t CAIO_IDLE of
                  Inl f \<Rightarrow> Inl f
                | Inr p \<Rightarrow> Inr (0, Some (p\<lparr>count_p := count_p p - 1\<rparr>)))))"

definition caio_taskpool_lease :: "caio_taskpool \<Rightarrow> fault + (nat option \<times> caio_taskpool)" where
  "caio_taskpool_lease pool =
     (case caio_taskpool_next pool None CAIO_IDLE of
        Inl f \<Rightarrow> Inl f
      | Inr None \<Rightarrow> Inr (None, pool)
      | Inr (Some t) \<Rightarrow>
          (case write_task pool t CAIO_RUNNING of
             Inl f \<Rightarrow> Inl f
           | Inr p \<Rightarrow> Inr (Some t, p\<lparr>count_p := count_p p + 1\<rparr>)))"

text \<open>
  \<open>caio_taskpool_init\<close>.  The outcome of \<open>calloc\<close> is a parameter.  The loop at the end
  of the function is \<open>caio_taskpool_init_loop\<close>; it ends because every round moves the
  cursor forward.
\<close>

definition init_statuses :: "32 word" where
  "init_statuses = CAIO_RUNNING OR CAIO_WAITINGIO OR CAIO_TERMINATING OR CAIO_TERMINATED"

function caio_taskpool_init_loop :: "caio_taskpool \<Rightarrow> nat option \<Rightarrow> fault + caio_taskpool" where
  "caio_taskpool_init_loop pool task =
     (case caio_taskpool_next pool task init_statuses of
        Inl f \<Rightarrow> Inl f
      | Inr None \<Rightarrow> Inr pool
      | Inr (Some t) \<Rightarrow>
          (case write_task pool t CAIO_IDLE of
             Inl f \<Rightarrow> Inl f
           | Inr p \<Rightarrow> caio_taskpool_init_loop p (Some (t + 1))))"
  by pat_completeness auto
termination
proof (relation "measure (\<lambda>(pool, task). last_p pool + 2 - (case task of None \<Rightarrow> 0 | Some t \<Rightarrow> t))")
  show "wf (measure (\<lambda>(pool, task). last_p pool + 2 - (case task of None \<Rightarrow> 0 | Some t \<Rightarrow> t)))"
    by simp
next
  fix pool :: caio_taskpool and task :: "nat option" and x2 x2a t p
  assume nxt: "caio_taskpool_next pool task init_statuses = Inr x2" "x2 = Some t"
    and wr: "write_task pool t CAIO_IDLE = Inr p"
  have bound: "caio_taskpool_next_loop q i m = Inr (Some j) \<Longrightarrow> i \<le> j \<and> j \<le> last_p q" for q i m j
  proof (induction q i m rule: caio_taskpool_next_loop.induct)
    case (1 pool task statuses)
    then show ?case
      by (subst (asm) (2) caio_taskpool_next_loop.simps) (auto split: if_splits)
  qed
  from wr have "last_p p = last_p pool"
    by (auto simp: write_task_def split: if_splits)
  moreover have "(case task of None \<Rightarrow> 0 | Some t \<Rightarrow> t) \<le> t \<and> t \<le> last_p pool"
    using nxt by (intro bound [of pool _ init_statuses t]) (simp add: caio_taskpool_next_def)
  ultimately show "((p, Some (t + 1)), pool, task)
        \<in> measure (\<lambda>(pool, task). last_p pool + 2 - (case task of None \<Rightarrow> 0 | Some t \<Rightarrow> t))"
    by (cases task) auto
qed

declare caio_taskpool_init_loop.simps [simp del]

definition caio_taskpool_init ::
    "bool \<Rightarrow> caio_taskpool option \<Rightarrow> 64 word \<Rightarrow> fault + (int \<times> caio_taskpool option)" where
  "caio_taskpool_init calloc_ok pool sz =
     (case pool of
        None \<Rightarrow> Inr (- 1, pool)
      | Some p \<Rightarrow>
          if \<not> calloc_ok then Inr (- 1, Some (p\<lparr>tasks := []\<rparr>))
          else
            let p = p\<lparr>tasks := replicate (unat sz) zero_task\<rparr>;
                p = p\<lparr>last_p := unat sz\<rparr>;
                p = p\<lparr>count_p := 0\<rparr>;
                p = p\<lparr>size_p := sz\<rparr>
            in (case caio_taskpool_init_loop p None of
                  Inl f \<Rightarrow> Inl f
                | Inr p \<Rightarrow> Inr (0, Some p)))"

text \<open>The number of slots a lease can take.\<close>

definition idle_slots :: "caio_taskpool \<Rightarrow> nat" where
  "idle_slots pool = length (filter (\<lambda>t. status t AND CAIO_IDLE \<noteq> 0) (tasks pool))"

text \<open>Two pools of one slot, as \<open>caio_taskpool_init\<close> lays a pool out: one idle, one leased.\<close>

definition idle_task :: caio_task where
  "idle_task = \<lparr>caio = None, current = None, status = CAIO_IDLE, eno = 0\<rparr>"

definition running_task :: caio_task where
  "running_task = \<lparr>caio = None, current = None, status = CAIO_RUNNING, eno = 0\<rparr>"

definition pool_idle1 :: caio_taskpool where
  "pool_idle1 = \<lparr>tasks = [idle_task], last_p = 1, count_p = 0, size_p = 1\<rparr>"

definition pool_full1 :: caio_taskpool where
  "pool_full1 = \<lparr>tasks = [running_task], last_p = 1, count_p = 1, size_p = 1\<rparr>"


section \<open>caio.c: tasks, call stacks and the scheduler\<close>

text \<open>
  The header that declares \<open>struct caiotask\<close>, \<open>struct caiocall\<close>, \<open>caiocoro\<close> and
  \<open>enum caiocoro_status\<close> for \<open>caio.c\<close> is not among the sources.  A task has the fields
  that \<open>caio.c\<close> uses (\<open>index\<close>, \<open>running_coros\<close>, \<open>callstack\<close>), and a call frame the
  two that it uses (\<open>coro\<close>, \<open>state\<close>).  Of the enumeration only \<open>ccs_done\<close> is named in
  \<open>caio.c\<close>; \<open>ccs_not_done\<close> stands for every other value.

  A field that holds \<open>None\<close> has not been written since \<open>malloc\<close> returned the object:
  its value is indeterminate.
\<close>

datatype caiocoro_status = ccs_done | ccs_not_done

record caiocall =
  coro :: nat
  state :: "addr option"

text \<open>
  Modelled from the spec: \<open>generic_stack.c\<close> is not among the sources.  The call stack is
  an ordered sequence of frames, innermost last, with a depth bound fixed at creation.  A
  push onto a full stack fails; \<open>pop\<close> and \<open>last\<close> give \<open>NULL\<close> on an empty stack.
\<close>

record caiocall_stack =
  stack :: "addr list"
  size_s :: nat

definition count_s :: "caiocall_stack \<Rightarrow> nat" where
  "count_s s = length (stack s)"

definition caiocall_stack_push :: "caiocall_stack \<Rightarrow> addr \<Rightarrow> caiocall_stack option" where
  "caiocall_stack_push s call =
     (if count_s s < size_s s then Some (s\<lparr>stack := stack s @ [call]\<rparr>) else None)"

definition caiocall_stack_pop :: "caiocall_stack \<Rightarrow> addr option \<times> caiocall_stack" where
  "caiocall_stack_pop s =
     (if stack s = [] then (None, s) else (Some (last (stack s)), s\<lparr>stack := butlast (stack s)\<rparr>))"

definition caiocall_stack_last :: "caiocall_stack \<Rightarrow> addr option" where
  "caiocall_stack_last s = (if stack s = [] then None else Some (last (stack s)))"

record caiotask =
  index :: "int option"
  running_coros :: int
  callstack :: caiocall_stack

text \<open>
  Modelled from the spec: \<open>generic_array.c\<close> is not among the sources.  The task table is
  a fixed number of slots, each empty or holding a task; its size is the number of slots
  and its count the number of occupied ones.  \<open>append\<close> puts the task into the first
  empty slot and returns its index, or \<open>-1\<close> when there is none; \<open>del\<close> empties a slot;
  \<open>get\<close> reads one.
\<close>

type_synonym caiotask_array = "addr option list"

definition size_a :: "caiotask_array \<Rightarrow> nat" where
  "size_a a = length a"

definition count_a :: "caiotask_array \<Rightarrow> nat" where
  "count_a a = length (filter (\<lambda>slot. slot \<noteq> None) a)"

fun first_empty :: "caiotask_array \<Rightarrow> nat option" where
  "first_empty [] = None"
| "first_empty (slot # a) =
     (if slot = None then Some 0 else map_option Suc (first_empty a))"

definition caiotask_array_append :: "caiotask_array \<Rightarrow> addr \<Rightarrow> int \<times> caiotask_array" where
  "caiotask_array_append a task =
     (case first_empty a of None \<Rightarrow> (- 1, a) | Some i \<Rightarrow> (int i, a[i := Some task]))"

definition caiotask_array_del :: "caiotask_array \<Rightarrow> int \<Rightarrow> caiotask_array" where
  "caiotask_array_del a i = (if 0 \<le> i \<and> i < int (size_a a) then a[nat i := None] else a)"

definition caiotask_array_get :: "caiotask_array \<Rightarrow> nat \<Rightarrow> addr option" where
  "caiotask_array_get a i = (if i < size_a a then a ! i else None)"

text \<open>
  The state of the runtime: the two file-level variables \<open>_callstack_size\<close> and \<open>_tasks\<close>
  (\<open>g_callstack_size\<close> and \<open>g_tasks\<close>: a name cannot begin with an underscore here),
  and the heap, which holds the tasks and the frames that are allocated.  \<open>malloc\<close> hands
  out the address \<open>brk\<close>, which was never used before; \<open>mallocs\<close> lists the outcomes of the
  coming allocation requests (success or failure), and a request fails once the list is
  used up.  \<open>free\<close> of an object that is not allocated is a fault.  \<open>app_mem\<close> is the
  memory of the application, into which the \<open>state\<close> pointers of the frames point; the
  runtime passes these pointers on and never follows them.
\<close>

record runtime =
  g_callstack_size :: nat
  g_tasks :: caiotask_array
  task_heap :: "addr \<rightharpoonup> caiotask"
  call_heap :: "addr \<rightharpoonup> caiocall"
  brk :: addr
  mallocs :: "bool list"
  app_mem :: "addr \<Rightarrow> int"

definition malloc :: "runtime \<Rightarrow> addr option \<times> runtime" where
  "malloc rt =
     (case mallocs rt of
        [] \<Rightarrow> (None, rt)
      | ok # rest \<Rightarrow>
          if ok then (Some (brk rt), rt\<lparr>brk := brk rt + 1, mallocs := rest\<rparr>)
          else (None, rt\<lparr>mallocs := rest\<rparr>))"

definition free_task :: "runtime \<Rightarrow> addr \<Rightarrow> fault + runtime" where
  "free_task rt task =
     (case task_heap rt task of
        None \<Rightarrow> Inl InvalidPointer
      | Some t \<Rightarrow> Inr (rt\<lparr>task_heap := (task_heap rt)(task := None)\<rparr>))"

definition free_call :: "runtime \<Rightarrow> addr \<Rightarrow> fault + runtime" where
  "free_call rt call =
     (case call_heap rt call of
        None \<Rightarrow> Inl InvalidPointer
      | Some c \<Rightarrow> Inr (rt\<lparr>call_heap := (call_heap rt)(call := None)\<rparr>))"

text \<open>
  \<open>caiotask_array_init\<close> and \<open>caiocall_stack_init\<close> allocate their buffer; the buffer's
  address plays no part in the model.
\<close>

definition caiocall_stack_init :: "runtime \<Rightarrow> nat \<Rightarrow> caiocall_stack option \<times> runtime" where
  "caiocall_stack_init rt n =
     (case malloc rt of
        (None, rt) \<Rightarrow> (None, rt)
      | (Some buffer, rt) \<Rightarrow> (Some \<lparr>stack = [], size_s = n\<rparr>, rt))"

definition caiotask_array_init :: "runtime \<Rightarrow> nat \<Rightarrow> caiotask_array option \<times> runtime" where
  "caiotask_array_init rt n =
     (case malloc rt of
        (None, rt) \<Rightarrow> (None, rt)
      | (Some buffer, rt) \<Rightarrow> (Some (replicate n None), rt))"

definition caio_init :: "runtime \<Rightarrow> nat \<Rightarrow> nat \<Rightarrow> int \<times> runtime" where
  "caio_init rt maxtasks callstack_size =
     (case caiotask_array_init rt maxtasks of
        (None, rt) \<Rightarrow> (- 1, rt)
      | (Some a, rt) \<Rightarrow> (0, rt\<lparr>g_tasks := a, g_callstack_size := callstack_size\<rparr>))"

text \<open>
  \<open>_caio_task_dispose\<close> (here \<open>caio_task_dispose\<close>).  The \<open>while\<close> loop pops and frees
  one frame per round, reading the task again each time.  \<open>caiocall_stack_deinit\<close> frees
  the buffer of the stack, which the model does not keep.
\<close>

function caio_task_dispose_loop :: "runtime \<Rightarrow> addr \<Rightarrow> fault + runtime" where
  "caio_task_dispose_loop rt task =
     (case task_heap rt task of
        None \<Rightarrow> Inl InvalidPointer
      | Some t \<Rightarrow>
          if count_s (callstack t) \<noteq> 0 then
            (case caiocall_stack_pop (callstack t) of
               (call, s) \<Rightarrow>
                 let rt = rt\<lparr>task_heap := (task_heap rt)(task \<mapsto> t\<lparr>callstack := s\<rparr>)\<rparr>
                 in (case call of
                       None \<Rightarrow> Inl NullDeref
                     | Some c \<Rightarrow>
                         (case free_call rt c of
                            Inl f \<Rightarrow> Inl f
                          | Inr rt \<Rightarrow> caio_task_dispose_loop rt task)))
          else Inr rt)"
  by pat_completeness auto
termination
  by (relation "measure (\<lambda>(rt, task).
        case task_heap rt task of None \<Rightarrow> 0 | Some t \<Rightarrow> length (stack (callstack t)))")
    (auto simp: free_call_def caiocall_stack_pop_def count_s_def split: option.splits if_splits)

declare caio_task_dispose_loop.simps [simp del]

definition caio_task_dispose :: "runtime \<Rightarrow> addr \<Rightarrow> fault + runtime" where
  "caio_task_dispose rt task =
     (case caio_task_dispose_loop rt task of
        Inl f \<Rightarrow> Inl f
      | Inr rt \<Rightarrow>
          (case task_heap rt task of
             None \<Rightarrow> Inl InvalidPointer
           | Some t \<Rightarrow>
               (case index t of
                  None \<Rightarrow> Inl UninitRead
                | Some i \<Rightarrow> free_task (rt\<lparr>g_tasks := caiotask_array_del (g_tasks rt) i\<rparr>) task)))"

text \<open>Leaving a function with \<open>-1\<close> after \<open>_caio_task_dispose(task)\<close>.\<close>

definition dispose_and_fail :: "runtime \<Rightarrow> addr \<Rightarrow> fault + (int \<times> runtime)" where
  "dispose_and_fail rt task =
     (case caio_task_dispose rt task of Inl f \<Rightarrow> Inl f | Inr rt \<Rightarrow> Inr (- 1, rt))"

text \<open>
  The two assignments of \<open>caio_call_new\<close> to the frame, \<open>call->coro = coro\<close> and
  \<open>call->state = state\<close>, on the block as \<open>malloc\<close> returned it.  They are the only
  writes to a frame in \<open>caio.c\<close>.  Whatever members the missing declaration of
  \<open>struct caiocall\<close> has besides \<open>coro\<close> and \<open>state\<close> are the extension of the record.
\<close>

definition caio_call_init :: "'a caiocall_scheme \<Rightarrow> nat \<Rightarrow> addr option \<Rightarrow> 'a caiocall_scheme" where
  "caio_call_init call co st = call\<lparr>coro := co, state := st\<rparr>"

text \<open>
  \<open>caio_call_new\<close>.  The frame comes from \<open>malloc\<close>; the function writes \<open>coro\<close> and
  \<open>state\<close> and nothing else.
\<close>

definition caio_call_new :: "runtime \<Rightarrow> addr \<Rightarrow> nat \<Rightarrow> addr option \<Rightarrow> fault + (int \<times> runtime)" where
  "caio_call_new rt task co st =
     (case malloc rt of
        (None, rt) \<Rightarrow> dispose_and_fail rt task
      | (Some call, rt) \<Rightarrow>
          let rt = rt\<lparr>call_heap := (call_heap rt)(call \<mapsto> \<lparr>coro = co, state = st\<rparr>)\<rparr>
          in (case task_heap rt task of
                None \<Rightarrow> Inl InvalidPointer
              | Some t \<Rightarrow>
                  (case caiocall_stack_push (callstack t) call of
                     None \<Rightarrow> dispose_and_fail rt task
                   | Some s \<Rightarrow>
                       Inr (0, rt\<lparr>task_heap := (task_heap rt)
                             (task \<mapsto> t\<lparr>callstack := s, running_coros := running_coros t + 1\<rparr>)\<rparr>))))"

text \<open>
  \<open>caio_task_new\<close>.  The task comes from \<open>malloc\<close> with \<open>index\<close> indeterminate;
  \<open>running_coros\<close> and \<open>callstack\<close> are written before anything reads them, so the model
  enters the task into the heap with \<open>running_coros = 0\<close> and an empty call stack that
  \<open>caiocall_stack_init\<close> then replaces.
\<close>

definition caio_task_new :: "runtime \<Rightarrow> nat \<Rightarrow> addr option \<Rightarrow> fault + (int \<times> runtime)" where
  "caio_task_new rt co st =
     (case malloc rt of
        (None, rt) \<Rightarrow> Inr (- 1, rt)
      | (Some task, rt) \<Rightarrow>
          let t = \<lparr>index = None, running_coros = 0, callstack = \<lparr>stack = [], size_s = 0\<rparr>\<rparr>;
              rt = rt\<lparr>task_heap := (task_heap rt)(task \<mapsto> t)\<rparr>
          in (case caiocall_stack_init rt (g_callstack_size rt) of
                (None, rt) \<Rightarrow>
                  (case free_task rt task of Inl f \<Rightarrow> Inl f | Inr rt \<Rightarrow> Inr (- 1, rt))
              | (Some s, rt) \<Rightarrow>
                  let t = t\<lparr>callstack := s\<rparr>;
                      rt = rt\<lparr>task_heap := (task_heap rt)(task \<mapsto> t)\<rparr>;
                      (i, a) = caiotask_array_append (g_tasks rt) task;
                      rt = rt\<lparr>g_tasks := a\<rparr>
                  in if i = - 1 then dispose_and_fail rt task
                     else
                       let rt = rt\<lparr>task_heap := (task_heap rt)(task \<mapsto> t\<lparr>index := Some i\<rparr>)\<rparr>
                       in (case caio_call_new rt task co st of
                             Inl f \<Rightarrow> Inl f
                           | Inr (r, rt) \<Rightarrow>
                               if r \<noteq> 0 then dispose_and_fail rt task else Inr (0, rt))))"

text \<open>
  A coroutine is a C function; the program is the table of the coroutines, by function
  pointer.  A call of a coroutine with the task and the state pointer takes the runtime
  to a new runtime and gives a status, or faults.
\<close>

type_synonym prog = "nat \<Rightarrow> addr \<Rightarrow> addr option \<Rightarrow> runtime \<Rightarrow> fault + (caiocoro_status \<times> runtime)"

text \<open>\<open>caio_task_step\<close>.\<close>

definition caio_task_step :: "prog \<Rightarrow> runtime \<Rightarrow> addr \<Rightarrow> fault + (int \<times> runtime)" where
  "caio_task_step prog rt task =
     (case task_heap rt task of
        None \<Rightarrow> Inl InvalidPointer
      | Some t \<Rightarrow>
          (case caiocall_stack_last (callstack t) of
             None \<Rightarrow> Inl NullDeref
           | Some call \<Rightarrow>
               (case call_heap rt call of
                  None \<Rightarrow> Inl InvalidPointer
                | Some c \<Rightarrow>
                    (case prog (coro c) task (state c) rt of
                       Inl f \<Rightarrow> Inl f
                     | Inr (st, rt) \<Rightarrow>
                         (case (if st = ccs_done then
                                  (case task_heap rt task of
                                     None \<Rightarrow> Inl InvalidPointer
                                   | Some t \<Rightarrow>
                                       (case free_call rt call of
                                          Inl f \<Rightarrow> Inl f
                                        | Inr rt \<Rightarrow>
                                            Inr (rt\<lparr>task_heap := (task_heap rt)(task \<mapsto>
                                              t\<lparr>callstack := snd (caiocall_stack_pop (callstack t)),
                                                running_coros := running_coros t - 1\<rparr>)\<rparr>)))
                                else Inr rt) of
                            Inl f \<Rightarrow> Inl f
                          | Inr rt \<Rightarrow>
                              (case task_heap rt task of
                                 None \<Rightarrow> Inl InvalidPointer
                               | Some t \<Rightarrow>
                                   if running_coros t = 0 then
                                     (case caio_task_dispose rt task of
                                        Inl f \<Rightarrow> Inl f
                                      | Inr rt \<Rightarrow> Inr (0, rt))
                                   else Inr (0, rt)))))))"

text \<open>
  \<open>caio_forever\<close>.  The \<open>for\<close> loop is one sweep; it gives the list of the slot indices
  whose task it stepped, in the order of the steps, with the runtime it leaves.  Its
  counter is an \<open>int\<close>: incrementing it at \<open>INT_MAX\<close> is a fault.  The \<open>while\<close> loop
  may run forever; \<open>None\<close> is the result of a run that does not return.
\<close>

definition INT_MAX :: nat where "INT_MAX = 2147483647"
definition EXIT_SUCCESS :: int where "EXIT_SUCCESS = 0"

partial_function (option) caio_forever_sweep ::
    "prog \<Rightarrow> nat \<Rightarrow> nat list \<Rightarrow> runtime \<Rightarrow> (fault + (nat list \<times> runtime)) option" where
  "caio_forever_sweep prog taskindex stepped rt =
     (if taskindex < size_a (g_tasks rt) then
        (case caiotask_array_get (g_tasks rt) taskindex of
           None \<Rightarrow>
             if taskindex = INT_MAX then Some (Inl IntOverflow)
             else caio_forever_sweep prog (taskindex + 1) stepped rt
         | Some task \<Rightarrow>
             (case caio_task_step prog rt task of
                Inl f \<Rightarrow> Some (Inl f)
              | Inr (r, rt) \<Rightarrow>
                  if taskindex = INT_MAX then Some (Inl IntOverflow)
                  else caio_forever_sweep prog (taskindex + 1) (stepped @ [taskindex]) rt))
      else Some (Inr (stepped, rt)))"

partial_function (option) caio_forever :: "prog \<Rightarrow> runtime \<Rightarrow> (fault + (int \<times> runtime)) option" where
  "caio_forever prog rt =
     (if count_a (g_tasks rt) \<noteq> 0 then
        (case caio_forever_sweep prog 0 [] rt of
           None \<Rightarrow> None
         | Some (Inl f) \<Rightarrow> Some (Inl f)
         | Some (Inr (stepped, rt)) \<Rightarrow> caio_forever prog rt)
      else Some (Inr (EXIT_SUCCESS, rt)))"

section \<open>A program and some states\<close>

text \<open>
  Two coroutines.  Coroutine 0 is done at its first call.  Coroutine 1 is not done at its
  first call, where it sets the cell of the application's memory that its state pointer
  names, and is done at its second call.
\<close>

definition prog_demo :: prog where
  "prog_demo co task st rt =
     (if co = 0 then Inr (ccs_done, rt)
      else (case st of
              None \<Rightarrow> Inl NullDeref
            | Some a \<Rightarrow>
                if app_mem rt a = 0 then Inr (ccs_not_done, rt\<lparr>app_mem := (app_mem rt)(a := 1)\<rparr>)
                else Inr (ccs_done, rt)))"

text \<open>
  The runtime after \<open>caio_init(3, 2)\<close>, with room for ten allocations; and after three
  calls of \<open>caio_task_new\<close> and one of \<open>caio_call_new\<close>: task 0 with the frame 2 of
  coroutine 0, task 3 with the frame 5 of coroutine 1, and task 6 with the frame 8 of
  coroutine 1 below the frame 9 of coroutine 0.
\<close>

definition rt_init :: runtime where
  "rt_init =
     \<lparr>g_callstack_size = 2, g_tasks = [None, None, None], task_heap = Map.empty,
      call_heap = Map.empty, brk = 0,
      mallocs = [True, True, True, True, True, True, True, True, True, True],
      app_mem = (\<lambda>a. 0)\<rparr>"

definition rt_demo :: runtime where
  "rt_demo =
     \<lparr>g_callstack_size = 2, g_tasks = [Some 0, Some 3, Some 6],
      task_heap =
        [0 \<mapsto> \<lparr>index = Some 0, running_coros = 1, callstack = \<lparr>stack = [2], size_s = 2\<rparr>\<rparr>,
         3 \<mapsto> \<lparr>index = Some 1, running_coros = 1, callstack = \<lparr>stack = [5], size_s = 2\<rparr>\<rparr>,
         6 \<mapsto> \<lparr>index = Some 2, running_coros = 2, callstack = \<lparr>stack = [8, 9], size_s = 2\<rparr>\<rparr>],
      call_heap =
        [2 \<mapsto> \<lparr>coro = 0, state = None\<rparr>,
         5 \<mapsto> \<lparr>coro = 1, state = Some 100\<rparr>,
         8 \<mapsto> \<lparr>coro = 1, state = Some 101\<rparr>,
         9 \<mapsto> \<lparr>coro = 0, state = None\<rparr>],
      brk = 10, mallocs = [], app_mem = (\<lambda>a. 0)\<rparr>"

text \<open>A runtime whose only task has an empty call stack.\<close>

definition rt_empty_stack :: runtime where
  "rt_empty_stack =
     \<lparr>g_callstack_size = 2, g_tasks = [Some 0],
      task_heap = [0 \<mapsto> \<lparr>index = Some 0, running_coros = 0, callstack = \<lparr>stack = [], size_s = 2\<rparr>\<rparr>],
      call_heap = Map.empty, brk = 2, mallocs = [], app_mem = (\<lambda>a. 0)\<rparr>"

text \<open>
  An empty runtime in which the third allocation request fails, and the full runtime
  \<open>rt_demo\<close> with memory for three more allocations.
\<close>

definition rt_frame_fails :: runtime where
  "rt_frame_fails =
     \<lparr>g_callstack_size = 2, g_tasks = [None], task_heap = Map.empty,
      call_heap = Map.empty, brk = 0, mallocs = [True, True, False], app_mem = (\<lambda>a. 0)\<rparr>"

definition rt_table_full :: runtime where
  "rt_table_full = rt_demo\<lparr>mallocs := [True, True, True]\<rparr>"

text \<open>
  A program whose coroutine 0 makes a sub-call of coroutine 1 with
  \<open>caio_call_new(task, coro1, NULL)\<close> and then returns \<open>ccs_done\<close> instead of waiting
  for it; coroutine 1 is done at its first call.  And the runtime after \<open>caio_init(1, 2)\<close>
  and \<open>caio_task_new(coro0, NULL)\<close>, with memory for one more allocation: task 0 with
  the frame 2 of coroutine 0.
\<close>

definition prog_push :: prog where
  "prog_push co task st rt =
     (if co = 0 then
        (case caio_call_new rt task 1 None of
           Inl f \<Rightarrow> Inl f
         | Inr (r, rt) \<Rightarrow> Inr (ccs_done, rt))
      else Inr (ccs_done, rt))"

definition rt_one :: runtime where
  "rt_one =
     \<lparr>g_callstack_size = 2, g_tasks = [Some 0],
      task_heap = [0 \<mapsto> \<lparr>index = Some 0, running_coros = 1, callstack = \<lparr>stack = [2], size_s = 2\<rparr>\<rparr>],
      call_heap = [2 \<mapsto> \<lparr>coro = 0, state = None\<rparr>],
      brk = 3, mallocs = [True], app_mem = (\<lambda>a. 0)\<rparr>"

text \<open>
  The runtime \<open>rt_demo\<close> with the count of running coroutines of task 3 set to zero
  while its frame 5 is on the call stack.
\<close>

definition rt_zero :: runtime where
  "rt_zero =
     rt_demo\<lparr>task_heap := (task_heap rt_demo)
       (3 \<mapsto> \<lparr>index = Some 1, running_coros = 0, callstack = \<lparr>stack = [5], size_s = 2\<rparr>\<rparr>)\<rparr>"

text \<open>
  A declaration of \<open>struct caiocall\<close> that has, besides \<open>coro\<close> and \<open>state\<close>, a resume
  position \<open>line\<close> as \<open>struct caio_call\<close> of \<open>caio.h\<close> has; and a block of that type as
  \<open>malloc\<close> may return it, with 7 at the resume position.
\<close>

record caiocall_line = caiocall +
  line :: int

definition block_line7 :: caiocall_line where
  "block_line7 = \<lparr>coro = 0, state = None, line = 7\<rparr>"

section \<open>Well-formed task tables and coroutines that leave the table alone\<close>

text \<open>
  In a well-formed runtime every task that the table holds is allocated, and its \<open>index\<close>
  names the slot that holds it (\<open>caio_task_new\<close> writes it so).  A program keeps the table
  when no call of a coroutine changes the task table, frees a task or changes the \<open>index\<close>
  of a task: its coroutines may push frames and write to their own memory, but they do not
  spawn tasks and their sub-calls do not fail.
\<close>

definition table_ok :: "runtime \<Rightarrow> bool" where
  "table_ok rt =
     (\<forall>i task. i < size_a (g_tasks rt) \<and> g_tasks rt ! i = Some task \<longrightarrow>
        (\<exists>t. task_heap rt task = Some t \<and> index t = Some (int i)))"

definition keeps_table :: "prog \<Rightarrow> bool" where
  "keeps_table prog =
     (\<forall>co task st rt s rt'. prog co task st rt = Inr (s, rt') \<longrightarrow>
        g_tasks rt' = g_tasks rt
        \<and> (\<forall>a t. task_heap rt a = Some t \<longrightarrow>
              (\<exists>t'. task_heap rt' a = Some t' \<and> index t' = index t)))"

text \<open>The slots of the table that hold a task, in ascending order.\<close>

definition occupied :: "caiotask_array \<Rightarrow> nat list" where
  "occupied a = filter (\<lambda>i. a ! i \<noteq> None) [0..<size_a a]"

text \<open>
  The course of one sweep: \<open>caio_forever_sweep_reaches prog rt i stepped s\<close> says that the
  \<open>for\<close> loop, started in the runtime \<open>rt\<close>, comes to the head of the loop with
  \<open>taskindex = i\<close> in the runtime \<open>s\<close>, having stepped the slots \<open>stepped\<close>.
\<close>

inductive caio_forever_sweep_reaches :: "prog \<Rightarrow> runtime \<Rightarrow> nat \<Rightarrow> nat list \<Rightarrow> runtime \<Rightarrow> bool"
  for prog :: prog and rt :: runtime where
  start: "caio_forever_sweep_reaches prog rt 0 [] rt"
| skip: "\<lbrakk>caio_forever_sweep_reaches prog rt i stepped s; i < size_a (g_tasks s);
          caiotask_array_get (g_tasks s) i = None; i \<noteq> INT_MAX\<rbrakk>
         \<Longrightarrow> caio_forever_sweep_reaches prog rt (i + 1) stepped s"
| step: "\<lbrakk>caio_forever_sweep_reaches prog rt i stepped s; i < size_a (g_tasks s);
          caiotask_array_get (g_tasks s) i = Some task;
          caio_task_step prog s task = Inr (r, s'); i \<noteq> INT_MAX\<rbrakk>
         \<Longrightarrow> caio_forever_sweep_reaches prog rt (i + 1) (stepped @ [i]) s'"

code_pred (modes: i \<Rightarrow> i \<Rightarrow> o \<Rightarrow> o \<Rightarrow> o \<Rightarrow> bool) caio_forever_sweep_reaches .

text \<open>
  The runtime after \<open>n\<close> rounds of the \<open>while\<close> loop of \<open>caio_forever\<close>: each round finds
  the count of the table not zero and makes one sweep, which returns.
\<close>

fun caio_forever_sweeps :: "prog \<Rightarrow> nat \<Rightarrow> runtime \<Rightarrow> runtime option" where
  "caio_forever_sweeps prog 0 rt = Some rt"
| "caio_forever_sweeps prog (Suc n) rt =
     (if count_a (g_tasks rt) \<noteq> 0 then
        (case caio_forever_sweep prog 0 [] rt of
           Some (Inr (stepped, rt')) \<Rightarrow> caio_forever_sweeps prog n rt'
         | _ \<Rightarrow> None)
      else None)"

section \<open>Theorems\<close>

subsection \<open>The control-flow macros\<close>

text \<open>
  Claim C10.  \<open>CAIO_RETURN\<close> sets the error number to 0 and the status to TERMINATING;
  \<open>CAIO_THROW\<close> sets the error number to its argument and the status to TERMINATING;
  \<open>CAIO_RETHROW\<close> sets the status to TERMINATING and keeps the error number;
  \<open>CAIO_ISERROR\<close> holds exactly when the error number is nonzero and equal to the code
  asked for; and after \<open>CAIO_RETURN\<close>, \<open>CAIO_HASERROR\<close> is false.  None of the three
  macros writes any other field.
\<close>

theorem caio_macros_error_field:
  "eno (CAIO_RETURN task) = 0 \<and> status (CAIO_RETURN task) = CAIO_TERMINATING
   \<and> eno (CAIO_THROW task n) = n \<and> status (CAIO_THROW task n) = CAIO_TERMINATING
   \<and> eno (CAIO_RETHROW task) = eno task \<and> status (CAIO_RETHROW task) = CAIO_TERMINATING
   \<and> CAIO_ISERROR task e = (eno task \<noteq> 0 \<and> eno task = e)
   \<and> \<not> CAIO_HASERROR (CAIO_RETURN task)
   \<and> caio (CAIO_RETURN task) = caio task \<and> current (CAIO_RETURN task) = current task
   \<and> caio (CAIO_THROW task n) = caio task \<and> current (CAIO_THROW task n) = current task
   \<and> caio (CAIO_RETHROW task) = caio task \<and> current (CAIO_RETHROW task) = current task"
  by (simp add: CAIO_RETURN_def CAIO_THROW_def CAIO_RETHROW_def CAIO_ISERROR_def
      CAIO_HASERROR_def)

subsection \<open>Ring setup\<close>

text \<open>The three results the function has, and a run in which every step succeeds.\<close>

lemma caio_io_uring_init_codes:
  "fst (caio_io_uring_init k u maxtasks) \<in> {- 1, 0, 1}"
  by (simp add: caio_io_uring_init_def Let_def split: prod.split)

lemma caio_io_uring_init_success:
  "caio_io_uring_init kernel_ok uring0 4 = (0, \<lparr>ringfd = 3, sqes = 0x7f0010000000\<rparr>)"
  by (simp add: caio_io_uring_init_def kernel_ok_def params4_def uring0_def Let_def
      MAP_FAILED_def IORING_FEAT_SINGLE_MMAP_def IORING_OFF_SQ_RING_def
      IORING_OFF_CQ_RING_def IORING_OFF_SQES_def)

text \<open>
  Claim C9 asks for a negative result whenever the setup or one of the mappings fails.
  The function returns \<open>-1\<close> when \<open>io_uring_setup\<close> or the mapping of the submission
  ring fails, but \<open>1\<close> when the separate mapping of the completion ring fails and when
  the mapping of the submission entries fails.
\<close>

theorem caio_io_uring_init_positive_on_failure:
  "fst (caio_io_uring_init kernel_cq_fails uring0 4) = 1
   \<and> fst (caio_io_uring_init kernel_sqes_fails uring0 4) = 1"
  by (simp add: caio_io_uring_init_def kernel_cq_fails_def kernel_sqes_fails_def params4_def
      uring0_def Let_def MAP_FAILED_def IORING_FEAT_SINGLE_MMAP_def IORING_OFF_SQ_RING_def
      IORING_OFF_CQ_RING_def IORING_OFF_SQES_def)

subsection \<open>The task pool\<close>

text \<open>
  What the scan finds: a slot it returns lies at or after the cursor and inside the block,
  its status intersects the mask, and no slot between the cursor and it does; and such a
  slot is found when there is one.
\<close>

lemma caio_taskpool_next_loop_Some:
  "caio_taskpool_next_loop pool i m = Inr (Some j) \<Longrightarrow>
     i \<le> j \<and> j \<le> last_p pool \<and> j < length (tasks pool) \<and> status (tasks pool ! j) AND m \<noteq> 0
     \<and> (\<forall>k. i \<le> k \<and> k < j \<longrightarrow> status (tasks pool ! k) AND m = 0)"
proof (induction pool i m rule: caio_taskpool_next_loop.induct)
  case (1 pool task statuses)
  show ?case
  proof (cases "status (tasks pool ! task) AND statuses \<noteq> 0")
    case True
    with "1.prems" show ?thesis
      by (subst (asm) caio_taskpool_next_loop.simps) (auto split: if_splits)
  next
    case False
    with "1.prems" have inb: "task \<le> last_p pool" "task < length (tasks pool)"
      and rec: "caio_taskpool_next_loop pool (task + 1) statuses = Inr (Some j)"
      using caio_taskpool_next_loop.simps [of pool task statuses] by (auto split: if_splits)
    from "1.IH" [OF inb _ rec] False
    have ih: "task + 1 \<le> j \<and> j \<le> last_p pool \<and> j < length (tasks pool)
        \<and> status (tasks pool ! j) AND statuses \<noteq> 0
        \<and> (\<forall>k. task + 1 \<le> k \<and> k < j \<longrightarrow> status (tasks pool ! k) AND statuses = 0)"
      by simp
    have "status (tasks pool ! k) AND statuses = 0" if "task \<le> k" "k < j" for k
    proof (cases "k = task")
      case True
      with False show ?thesis by simp
    next
      case False
      with that ih show ?thesis by simp
    qed
    with ih show ?thesis by simp
  qed
qed

lemma caio_taskpool_next_loop_found:
  "\<lbrakk>i \<le> j; j \<le> last_p pool; j < length (tasks pool); status (tasks pool ! j) AND m \<noteq> 0;
    \<forall>k. i \<le> k \<and> k < j \<longrightarrow> status (tasks pool ! k) AND m = 0\<rbrakk>
   \<Longrightarrow> caio_taskpool_next_loop pool i m = Inr (Some j)"
proof (induction pool i m rule: caio_taskpool_next_loop.induct)
  case (1 pool task statuses)
  show ?case
  proof (cases "task = j")
    case True
    with "1.prems" show ?thesis
      by (subst caio_taskpool_next_loop.simps) simp
  next
    case False
    with "1.prems" have lt: "task < j" by simp
    with "1.prems" have here: "task \<le> last_p pool" "task < length (tasks pool)"
      "\<not> status (tasks pool ! task) AND statuses \<noteq> 0"
      by auto
    have "caio_taskpool_next_loop pool (task + 1) statuses = Inr (Some j)"
      using "1.prems" lt by (intro "1.IH" [OF here]) auto
    with here show ?thesis
      by (subst caio_taskpool_next_loop.simps) simp
  qed
qed

text \<open>
  When no slot at or after the cursor matches, the scan goes on to the slot that
  \<open>pool->last\<close> points to, which \<open>caio_taskpool_init\<close> sets one past the end of the block.
\<close>

lemma caio_taskpool_next_loop_past_end:
  "\<lbrakk>last_p pool = length (tasks pool); i \<le> length (tasks pool);
    \<forall>k. i \<le> k \<and> k < length (tasks pool) \<longrightarrow> status (tasks pool ! k) AND m = 0\<rbrakk>
   \<Longrightarrow> caio_taskpool_next_loop pool i m = Inl OutOfBounds"
proof (induction pool i m rule: caio_taskpool_next_loop.induct)
  case (1 pool task statuses)
  show ?case
  proof (cases "task = length (tasks pool)")
    case True
    with "1.prems" show ?thesis
      by (subst caio_taskpool_next_loop.simps) simp
  next
    case False
    with "1.prems" have here: "task \<le> last_p pool" "task < length (tasks pool)"
      "\<not> status (tasks pool ! task) AND statuses \<noteq> 0"
      by auto
    have "caio_taskpool_next_loop pool (task + 1) statuses = Inl OutOfBounds"
      using "1.prems" here by (intro "1.IH" [OF here]) auto
    with here show ?thesis
      by (subst caio_taskpool_next_loop.simps) simp
  qed
qed

lemma length_filter_update:
  "i < length xs \<Longrightarrow> P (xs ! i) = P y \<Longrightarrow> length (filter P (xs[i := y])) = length (filter P xs)"
proof (induction xs arbitrary: i)
  case Nil
  then show ?case by simp
next
  case (Cons x xs)
  then show ?case by (cases i) auto
qed

lemma TASK_RESET_twice: "TASK_RESET (TASK_RESET t s) s' = TASK_RESET t s'"
  by (simp add: TASK_RESET_def)

lemma caio_taskpool_lease_Some:
  assumes "caio_taskpool_lease pool = Inr (Some t, leased)"
  shows "t < length (tasks pool) \<and> status (tasks pool ! t) AND CAIO_IDLE \<noteq> 0
     \<and> leased = pool\<lparr>tasks := (tasks pool)[t := TASK_RESET (tasks pool ! t) CAIO_RUNNING],
                     count_p := count_p pool + 1\<rparr>"
proof -
  from assms obtain j where nx: "caio_taskpool_next pool None CAIO_IDLE = Inr (Some j)"
    by (auto simp: caio_taskpool_lease_def split: sum.splits option.splits)
  then have j: "j < length (tasks pool)" "status (tasks pool ! j) AND CAIO_IDLE \<noteq> 0"
    using caio_taskpool_next_loop_Some [of pool 0 CAIO_IDLE j] by (simp_all add: caio_taskpool_next_def)
  with assms nx show ?thesis
    by (auto simp: caio_taskpool_lease_def write_task_def)
qed

text \<open>
  Claim C4, amended.  When a lease returns a slot, releasing that slot gives back the pool
  as it was before the lease, except that the slot now has status IDLE, error number 0
  and no current call: the live count and the number of idle slots are those from before
  the lease.  A second release of the same slot leaves the slot as it is and lowers the
  live count by one more.
\<close>

theorem caio_taskpool_release_after_lease:
  assumes "caio_taskpool_lease pool = Inr (Some t, leased)"
  shows "\<exists>released.
       caio_taskpool_release (Some leased) (Some t) = Inr (0, Some released)
     \<and> released = pool\<lparr>tasks := (tasks pool)[t := TASK_RESET (tasks pool ! t) CAIO_IDLE]\<rparr>
     \<and> count_p released = count_p pool
     \<and> idle_slots released = idle_slots pool
     \<and> tasks released ! t = \<lparr>caio = caio (tasks pool ! t), current = None, status = CAIO_IDLE, eno = 0\<rparr>
     \<and> caio_taskpool_release (Some released) (Some t)
         = Inr (0, Some (released\<lparr>count_p := count_p released - 1\<rparr>))"
proof -
  let ?released = "pool\<lparr>tasks := (tasks pool)[t := TASK_RESET (tasks pool ! t) CAIO_IDLE]\<rparr>"
  from caio_taskpool_lease_Some [OF assms]
  have t: "t < length (tasks pool)" and idle: "status (tasks pool ! t) AND CAIO_IDLE \<noteq> 0"
    and leased: "leased = pool\<lparr>tasks := (tasks pool)[t := TASK_RESET (tasks pool ! t) CAIO_RUNNING],
                     count_p := count_p pool + 1\<rparr>"
    by simp_all
  have first: "caio_taskpool_release (Some leased) (Some t) = Inr (0, Some ?released)"
    using t by (simp add: leased caio_taskpool_release_def write_task_def TASK_RESET_twice)
  have "status (TASK_RESET (tasks pool ! t) CAIO_IDLE) AND CAIO_IDLE \<noteq> 0"
    by (simp add: TASK_RESET_def CAIO_IDLE_def)
  with idle have slots: "idle_slots ?released = idle_slots pool"
    using t by (simp add: idle_slots_def length_filter_update)
  have slot: "tasks ?released ! t
      = \<lparr>caio = caio (tasks pool ! t), current = None, status = CAIO_IDLE, eno = 0\<rparr>"
    using t by (simp add: TASK_RESET_def)
  have second: "caio_taskpool_release (Some ?released) (Some t)
      = Inr (0, Some (?released\<lparr>count_p := count_p ?released - 1\<rparr>))"
    using t by (simp add: caio_taskpool_release_def write_task_def TASK_RESET_twice)
  from first slots slot second show ?thesis
    by simp
qed

theorem caio_taskpool_release_after_lease_witness:
  "caio_taskpool_lease pool_idle1
      = Inr (Some 0, pool_idle1\<lparr>tasks := [running_task], count_p := 1\<rparr>)
   \<and> (\<exists>released.
       caio_taskpool_release (Some (pool_idle1\<lparr>tasks := [running_task], count_p := 1\<rparr>)) (Some 0)
         = Inr (0, Some released)
     \<and> released = pool_idle1\<lparr>tasks := (tasks pool_idle1)[0 := TASK_RESET (tasks pool_idle1 ! 0) CAIO_IDLE]\<rparr>
     \<and> count_p released = count_p pool_idle1
     \<and> idle_slots released = idle_slots pool_idle1
     \<and> tasks released ! 0 = \<lparr>caio = caio (tasks pool_idle1 ! 0), current = None, status = CAIO_IDLE, eno = 0\<rparr>
     \<and> caio_taskpool_release (Some released) (Some 0)
         = Inr (0, Some (released\<lparr>count_p := count_p released - 1\<rparr>)))"
proof -
  have lease: "caio_taskpool_lease pool_idle1
      = Inr (Some 0, pool_idle1\<lparr>tasks := [running_task], count_p := 1\<rparr>)"
    by (simp add: caio_taskpool_lease_def caio_taskpool_next_def caio_taskpool_next_loop.simps caio_taskpool_init_loop.simps pool_idle1_def idle_task_def
        running_task_def write_task_def TASK_RESET_def CAIO_IDLE_def CAIO_RUNNING_def)
  from lease caio_taskpool_release_after_lease [OF lease] show ?thesis
    by simp
qed

text \<open>
  Claim C4 as stated fails: on a pool of one idle slot with live count 0, lease and
  release bring the pool back, and the second release changes the live count from 0 to
  \<open>2^64 - 1\<close>.
\<close>

theorem caio_taskpool_release_twice_counterexample:
  "caio_taskpool_lease pool_idle1
      = Inr (Some 0, pool_idle1\<lparr>tasks := [running_task], count_p := 1\<rparr>)
   \<and> caio_taskpool_release (Some (pool_idle1\<lparr>tasks := [running_task], count_p := 1\<rparr>)) (Some 0)
      = Inr (0, Some pool_idle1)
   \<and> caio_taskpool_release (Some pool_idle1) (Some 0)
      = Inr (0, Some (pool_idle1\<lparr>count_p := 0xFFFFFFFFFFFFFFFF\<rparr>))
   \<and> count_p pool_idle1 = 0
   \<and> caio_taskpool_release (Some pool_idle1) (Some 0) \<noteq> Inr (0, Some pool_idle1)"
  by (simp add: caio_taskpool_lease_def caio_taskpool_next_def caio_taskpool_next_loop.simps caio_taskpool_init_loop.simps caio_taskpool_release_def
      pool_idle1_def idle_task_def running_task_def write_task_def TASK_RESET_def
      CAIO_IDLE_def CAIO_RUNNING_def)

text \<open>
  Claim C7 asks that the scan touch the slots \<open>0 .. C-1\<close> only.  On a pool of one slot
  that is leased, the scan for an idle slot reads slot 1: the block has one slot and
  \<open>pool->last\<close> is 1.
\<close>

theorem caio_taskpool_next_reads_past_end:
  "caio_taskpool_next pool_full1 None CAIO_IDLE = Inl OutOfBounds
   \<and> length (tasks pool_full1) = 1 \<and> last_p pool_full1 = 1"
  by (simp add: caio_taskpool_next_def caio_taskpool_next_loop.simps caio_taskpool_init_loop.simps pool_full1_def running_task_def CAIO_IDLE_def
      CAIO_RUNNING_def)

text \<open>
  Claim C1 asks that the first \<open>N\<close> leases from a freshly initialised pool succeed.
  For every capacity, \<open>caio_taskpool_init\<close> leaves every slot with status 0, which is
  not \<open>CAIO_IDLE\<close>: its reset loop looks for the four other flags, finds none in the
  zeroed block and overruns the block.  On the block as \<open>caio_taskpool_init\<close> builds it,
  a lease finds no idle slot and overruns the block in the same way, and so does a lease
  from a pool whose slots are all leased.
\<close>

theorem caio_taskpool_fresh_lease_fails:
  "caio_taskpool_init True (Some pool) sz = Inl OutOfBounds
   \<and> caio_taskpool_lease
        \<lparr>tasks = replicate (unat sz) zero_task, last_p = unat sz, count_p = 0, size_p = sz\<rparr>
       = Inl OutOfBounds
   \<and> caio_taskpool_lease pool_full1 = Inl OutOfBounds"
proof -
  let ?p = "\<lparr>tasks = replicate (unat sz) zero_task, last_p = unat sz, count_p = 0, size_p = sz\<rparr>"
  have scan: "caio_taskpool_next_loop ?p 0 m = Inl OutOfBounds" for m
    by (rule caio_taskpool_next_loop_past_end) (simp_all add: zero_task_def)
  have loop: "caio_taskpool_init_loop ?p None = Inl OutOfBounds"
    by (subst caio_taskpool_init_loop.simps) (simp add: caio_taskpool_next_def scan)
  have init: "caio_taskpool_init True (Some pool) sz = Inl OutOfBounds"
    by (cases pool) (simp add: caio_taskpool_init_def loop)
  have fresh: "caio_taskpool_lease ?p = Inl OutOfBounds"
    by (simp add: caio_taskpool_lease_def caio_taskpool_next_def scan)
  have "caio_taskpool_next_loop pool_full1 0 CAIO_IDLE = Inl OutOfBounds"
    by (rule caio_taskpool_next_loop_past_end)
      (simp_all add: pool_full1_def running_task_def CAIO_IDLE_def CAIO_RUNNING_def)
  then have full: "caio_taskpool_lease pool_full1 = Inl OutOfBounds"
    by (simp add: caio_taskpool_lease_def caio_taskpool_next_def)
  from init fresh full show ?thesis
    by simp
qed

subsection \<open>Tasks and call stacks\<close>

text \<open>
  The loop of \<open>_caio_task_dispose\<close> frees every frame of the call stack, when the
  frames are allocated and no frame is on the stack twice.
\<close>

lemma caio_task_dispose_loop_drains:
  "\<lbrakk>task_heap rt task = Some t; stack (callstack t) = fs; distinct fs;
    \<forall>c \<in> set fs. call_heap rt c \<noteq> None\<rbrakk>
   \<Longrightarrow> caio_task_dispose_loop rt task
       = Inr (rt\<lparr>task_heap := (task_heap rt)(task \<mapsto> t\<lparr>callstack := (callstack t)\<lparr>stack := []\<rparr>\<rparr>),
                 call_heap := (\<lambda>a. if a \<in> set fs then None else call_heap rt a)\<rparr>)"
proof (induction fs arbitrary: rt t rule: rev_induct)
  case Nil
  then have "t\<lparr>callstack := (callstack t)\<lparr>stack := []\<rparr>\<rparr> = t"
    by simp
  with Nil show ?case
    by (subst caio_task_dispose_loop.simps) (simp add: count_s_def map_upd_triv)
next
  case (snoc c fs)
  let ?t' = "t\<lparr>callstack := (callstack t)\<lparr>stack := fs\<rparr>\<rparr>"
  let ?rt' = "rt\<lparr>task_heap := (task_heap rt)(task \<mapsto> ?t'),
                 call_heap := (call_heap rt)(c := None)\<rparr>"
  from snoc.prems have c: "call_heap rt c \<noteq> None" and notin: "c \<notin> set fs"
    by simp_all
  have unfold: "caio_task_dispose_loop rt task = caio_task_dispose_loop ?rt' task"
    using snoc.prems(1,2) c
    by (subst caio_task_dispose_loop.simps)
      (auto simp: count_s_def caiocall_stack_pop_def free_call_def)
  have "caio_task_dispose_loop ?rt' task
      = Inr (?rt'\<lparr>task_heap := (task_heap ?rt')(task \<mapsto> ?t'\<lparr>callstack := (callstack ?t')\<lparr>stack := []\<rparr>\<rparr>),
                 call_heap := (\<lambda>a. if a \<in> set fs then None else call_heap ?rt' a)\<rparr>)"
    using snoc.prems notin by (intro snoc.IH) auto
  also have "\<dots> = Inr (rt\<lparr>task_heap := (task_heap rt)(task \<mapsto> t\<lparr>callstack := (callstack t)\<lparr>stack := []\<rparr>\<rparr>),
                 call_heap := (\<lambda>a. if a \<in> set (fs @ [c]) then None else call_heap rt a)\<rparr>)"
    by (auto simp: fun_eq_iff)
  finally have "caio_task_dispose_loop ?rt' task
      = Inr (rt\<lparr>task_heap := (task_heap rt)(task \<mapsto> t\<lparr>callstack := (callstack t)\<lparr>stack := []\<rparr>\<rparr>),
                 call_heap := (\<lambda>a. if a \<in> set (fs @ [c]) then None else call_heap rt a)\<rparr>)" .
  then show ?case
    by (simp only: unfold)
qed

text \<open>
  The three ways a step on a task with a frame ends when the coroutine returns: the
  coroutine is not done; it is done and frames remain; it is done and the count of
  running coroutines falls to zero.
\<close>

lemma caio_task_step_not_done:
  assumes "task_heap rt task = Some t" and "stack (callstack t) = fs @ [call]"
    and "call_heap rt call = Some c"
    and "prog (coro c) task (state c) rt = Inr (ccs_not_done, rt1)"
    and "task_heap rt1 task = Some t1" and "running_coros t1 \<noteq> 0"
  shows "caio_task_step prog rt task = Inr (0, rt1)"
  using assms by (simp add: caio_task_step_def caiocall_stack_last_def)

lemma caio_task_step_done:
  assumes "task_heap rt task = Some t" and "stack (callstack t) = fs @ [call]"
    and "call_heap rt call = Some c"
    and "prog (coro c) task (state c) rt = Inr (ccs_done, rt1)"
    and "task_heap rt1 task = Some t1" and "stack (callstack t1) = fs1 @ [call]"
    and "call_heap rt1 call \<noteq> None"
    and "running_coros t1 \<noteq> 1"
  shows "caio_task_step prog rt task
     = Inr (0, rt1\<lparr>call_heap := (call_heap rt1)(call := None),
                    task_heap := (task_heap rt1)(task \<mapsto>
                      t1\<lparr>callstack := (callstack t1)\<lparr>stack := fs1\<rparr>,
                         running_coros := running_coros t1 - 1\<rparr>)\<rparr>)"
  using assms
  by (auto simp: caio_task_step_def caiocall_stack_last_def free_call_def caiocall_stack_pop_def)

lemma caio_task_step_last_done:
  assumes "task_heap rt task = Some t" and "stack (callstack t) = fs @ [call]"
    and "call_heap rt call = Some c"
    and "prog (coro c) task (state c) rt = Inr (ccs_done, rt1)"
    and "task_heap rt1 task = Some t1" and "stack (callstack t1) = fs1 @ [call]"
    and "distinct (fs1 @ [call])" and "\<forall>a \<in> set (fs1 @ [call]). call_heap rt1 a \<noteq> None"
    and "running_coros t1 = 1" and "index t1 = Some i"
  shows "caio_task_step prog rt task
     = Inr (0, rt1\<lparr>call_heap := (\<lambda>a. if a \<in> set (fs1 @ [call]) then None else call_heap rt1 a),
                    task_heap := (task_heap rt1)(task := None),
                    g_tasks := caiotask_array_del (g_tasks rt1) i\<rparr>)"
proof -
  let ?t2 = "t1\<lparr>callstack := (callstack t1)\<lparr>stack := fs1\<rparr>, running_coros := 0\<rparr>"
  let ?rt2 = "rt1\<lparr>call_heap := (call_heap rt1)(call := None),
                  task_heap := (task_heap rt1)(task \<mapsto> ?t2)\<rparr>"
  have loop: "caio_task_dispose_loop ?rt2 task
      = Inr (?rt2\<lparr>task_heap := (task_heap ?rt2)(task \<mapsto> ?t2\<lparr>callstack := (callstack ?t2)\<lparr>stack := []\<rparr>\<rparr>),
                 call_heap := (\<lambda>a. if a \<in> set fs1 then None else call_heap ?rt2 a)\<rparr>)"
    using assms(7,8) by (intro caio_task_dispose_loop_drains) auto
  have "caio_task_dispose ?rt2 task
      = Inr (rt1\<lparr>call_heap := (\<lambda>a. if a \<in> set (fs1 @ [call]) then None else call_heap rt1 a),
                    task_heap := (task_heap rt1)(task := None),
                    g_tasks := caiotask_array_del (g_tasks rt1) i\<rparr>)"
    using assms(10) by (auto simp: caio_task_dispose_def loop free_task_def fun_eq_iff)
  then show ?thesis
    using assms
    by (auto simp: caio_task_step_def caiocall_stack_last_def free_call_def caiocall_stack_pop_def)
qed

text \<open>
  \<open>_caio_task_dispose\<close> frees the frames of the call stack and the task and empties
  the slot \<open>index\<close>; and a step in which the coroutine is not done, and after which the
  count of running coroutines is zero, disposes of the task.
\<close>

lemma caio_task_dispose_frees:
  assumes "task_heap rt task = Some t" and "distinct (stack (callstack t))"
    and "\<forall>a \<in> set (stack (callstack t)). call_heap rt a \<noteq> None"
    and "index t = Some i"
  shows "caio_task_dispose rt task
     = Inr (rt\<lparr>call_heap := (\<lambda>a. if a \<in> set (stack (callstack t)) then None else call_heap rt a),
                task_heap := (task_heap rt)(task := None),
                g_tasks := caiotask_array_del (g_tasks rt) i\<rparr>)"
proof -
  have loop: "caio_task_dispose_loop rt task
      = Inr (rt\<lparr>task_heap := (task_heap rt)(task \<mapsto> t\<lparr>callstack := (callstack t)\<lparr>stack := []\<rparr>\<rparr>),
                 call_heap := (\<lambda>a. if a \<in> set (stack (callstack t)) then None else call_heap rt a)\<rparr>)"
    using assms(1-3) by (intro caio_task_dispose_loop_drains) auto
  show ?thesis
    using assms(4) by (simp add: caio_task_dispose_def loop free_task_def)
qed

lemma caio_task_step_not_done_zero:
  assumes "task_heap rt task = Some t" and "stack (callstack t) = fs @ [call]"
    and "call_heap rt call = Some c"
    and "prog (coro c) task (state c) rt = Inr (ccs_not_done, rt1)"
    and "task_heap rt1 task = Some t1" and "running_coros t1 = 0"
    and "distinct (stack (callstack t1))"
    and "\<forall>a \<in> set (stack (callstack t1)). call_heap rt1 a \<noteq> None"
    and "index t1 = Some i"
  shows "caio_task_step prog rt task
     = Inr (0, rt1\<lparr>call_heap := (\<lambda>a. if a \<in> set (stack (callstack t1)) then None
                                       else call_heap rt1 a),
                    task_heap := (task_heap rt1)(task := None),
                    g_tasks := caiotask_array_del (g_tasks rt1) i\<rparr>)"
proof -
  have "caio_task_dispose rt1 task
     = Inr (rt1\<lparr>call_heap := (\<lambda>a. if a \<in> set (stack (callstack t1)) then None
                                    else call_heap rt1 a),
                 task_heap := (task_heap rt1)(task := None),
                 g_tasks := caiotask_array_del (g_tasks rt1) i\<rparr>)"
    using assms(5,7,8,9) by (rule caio_task_dispose_frees)
  then show ?thesis
    using assms(1-6) by (simp add: caio_task_step_def caiocall_stack_last_def)
qed

text \<open>The equations that evaluate the runtime on a given state.\<close>

lemmas caio_eval = caio_task_new_def caio_call_new_def caio_init_def malloc_def
  caiocall_stack_init_def caiotask_array_init_def
  caiotask_array_append_def caiocall_stack_push_def count_s_def dispose_and_fail_def
  caio_task_dispose_def caio_task_dispose_loop.simps free_task_def free_call_def
  caiotask_array_del_def caiotask_array_get_def size_a_def count_a_def caio_task_step_def
  caiocall_stack_last_def caiocall_stack_pop_def INT_MAX_def EXIT_SUCCESS_def Let_def

text \<open>\<open>rt_demo\<close> is the state that the calls named at its definition build.\<close>

lemma rt_demo_built:
  "(case caio_task_new rt_init 0 None of
      Inl f \<Rightarrow> Inl f
    | Inr (r1, rt1) \<Rightarrow>
        (case caio_task_new rt1 1 (Some 100) of
           Inl f \<Rightarrow> Inl f
         | Inr (r2, rt2) \<Rightarrow>
             (case caio_task_new rt2 1 (Some 101) of
                Inl f \<Rightarrow> Inl f
              | Inr (r3, rt3) \<Rightarrow> caio_call_new rt3 6 0 None))) = Inr (0, rt_demo)"
  by (simp add: caio_eval rt_init_def rt_demo_def fun_eq_iff)

text \<open>
  When \<open>malloc\<close> fails for the task, or for the buffer of its call stack,
  \<open>caio_task_new\<close> returns \<open>-1\<close> and leaves the task table and the heap as they were;
  only the allocator has moved on.
\<close>

lemma caio_task_new_alloc_failures:
  "mallocs rt = False # ms \<Longrightarrow> caio_task_new rt co st = Inr (- 1, rt\<lparr>mallocs := ms\<rparr>)"
  "\<lbrakk>mallocs rt = True # False # ms; task_heap rt (brk rt) = None\<rbrakk>
   \<Longrightarrow> caio_task_new rt co st = Inr (- 1, rt\<lparr>brk := brk rt + 1, mallocs := ms\<rparr>)"
  by (simp_all add: caio_task_new_def malloc_def caiocall_stack_init_def free_task_def Let_def
      fun_upd_idem_iff)

text \<open>
  Claim C3 asks that a failing \<open>caio_task_new\<close> return a negative result, leave the
  runtime as it was and dispose of the task exactly once.  When \<open>malloc\<close> fails for
  the initial frame, \<open>caio_call_new\<close> disposes of the task and returns \<open>-1\<close>, and
  \<open>caio_task_new\<close> then disposes of the same task again: the second
  \<open>_caio_task_dispose\<close> works on freed memory.  When the task table is full,
  \<open>caio_task_new\<close> disposes of a task whose \<open>index\<close> was never written, and
  \<open>caiotask_array_del\<close> is called with that indeterminate index.  And when a push onto
  a full call stack fails, \<open>caio_call_new\<close> disposes of the task once and returns \<open>-1\<close>,
  but the frame it had allocated stays allocated.
\<close>

theorem caio_task_new_double_dispose:
  "caio_task_new rt_frame_fails 0 None = Inl InvalidPointer
   \<and> caio_task_new rt_table_full 0 None = Inl UninitRead
   \<and> (case caio_call_new (rt_demo\<lparr>mallocs := [True]\<rparr>) 6 0 None of
        Inl f \<Rightarrow> None
      | Inr (r, rt) \<Rightarrow> Some (r, task_heap rt 6, call_heap rt 10))
       = Some (- 1, None, Some \<lparr>coro = 0, state = None\<rparr>)"
  by (simp add: caio_eval rt_frame_fails_def rt_table_full_def rt_demo_def)

text \<open>
  A step calls the coroutine of the top frame, with that frame's state, in the runtime as
  it stands, and calls nothing else: two programs that agree on this one call give the
  same step.
\<close>

lemma caio_task_step_cong:
  assumes "task_heap rt task = Some t" and "stack (callstack t) = fs @ [call]"
    and "call_heap rt call = Some c"
    and "prog' (coro c) task (state c) rt = prog (coro c) task (state c) rt"
  shows "caio_task_step prog' rt task = caio_task_step prog rt task"
  using assms by (simp add: caio_task_step_def caiocall_stack_last_def)

lemma caiotask_array_del_get:
  "i < size_a a \<Longrightarrow> caiotask_array_get (caiotask_array_del a (int i)) i = None"
  by (simp add: caiotask_array_get_def caiotask_array_del_def size_a_def)

text \<open>
  A successful \<open>caio_call_new\<close> has put the frame with the coroutine and the state at
  the address that \<open>malloc\<close> handed out, and that frame is the innermost one of the task.
  A successful \<open>caio_task_new\<close> has made the task and, through \<open>caio_call_new\<close>, its
  only frame.
\<close>

lemma caio_call_new_success:
  assumes "caio_call_new rt task co st = Inr (0, rt')"
  shows "call_heap rt' (brk rt) = Some \<lparr>coro = co, state = st\<rparr>
     \<and> (\<exists>t0 t. task_heap rt task = Some t0 \<and> task_heap rt' task = Some t
            \<and> stack (callstack t) = stack (callstack t0) @ [brk rt])"
  using assms
  by (auto simp: caio_call_new_def malloc_def dispose_and_fail_def caiocall_stack_push_def Let_def
      split: list.splits if_splits option.splits sum.splits)

lemma caio_task_new_success:
  assumes "caio_task_new rt co st = Inr (0, rt')"
  shows "call_heap rt' (brk rt + 2) = Some \<lparr>coro = co, state = st\<rparr>
     \<and> (\<exists>t. task_heap rt' (brk rt) = Some t \<and> stack (callstack t) = [brk rt + 2])"
proof -
  obtain ms where ms: "mallocs rt = True # True # ms"
    using assms
    by (auto simp: caio_task_new_def malloc_def caiocall_stack_init_def free_task_def Let_def
        split: list.splits if_splits option.splits sum.splits prod.splits)
  obtain i a where app: "caiotask_array_append (g_tasks rt) (brk rt) = (i, a)"
    by (cases "caiotask_array_append (g_tasks rt) (brk rt)")
  let ?t = "\<lparr>index = Some i, running_coros = 0,
             callstack = \<lparr>stack = [], size_s = g_callstack_size rt\<rparr>\<rparr>"
  let ?rt3 = "rt\<lparr>brk := brk rt + 2, mallocs := ms, g_tasks := a,
                 task_heap := (task_heap rt)(brk rt \<mapsto> ?t)\<rparr>"
  have "caio_call_new ?rt3 (brk rt) co st = Inr (0, rt')"
    using assms ms app
    by (auto simp: caio_task_new_def malloc_def caiocall_stack_init_def dispose_and_fail_def
        Let_def split: if_splits sum.splits prod.splits)
  from caio_call_new_success [OF this] show ?thesis
    by auto
qed




text \<open>
  Claim C6 as stated fails: on a task that is allocated and has an empty call stack,
  \<open>caio_task_step\<close> does not return the runtime unchanged; it reads the top frame,
  which is \<open>NULL\<close>, and faults.
\<close>

theorem caio_task_step_empty_counterexample:
  "caio_task_step prog_demo rt_empty_stack 0 = Inl NullDeref
   \<and> caio_task_step prog_demo rt_empty_stack 0 \<noteq> Inr (0, rt_empty_stack)
   \<and> map_option (\<lambda>t. stack (callstack t)) (task_heap rt_empty_stack 0) = Some []"
  by (simp add: caio_eval rt_empty_stack_def)

text \<open>
  Claim C2 as stated fails.  In \<open>rt_one\<close> the innermost frame of task 0 is the frame
  2, whose coroutine pushes the frame 3 and returns \<open>ccs_done\<close>.  The step returns 0;
  it has freed the frame 2, which it invoked, and popped the frame 3, which was the innermost
  one after the call.  So a frame other than the invoked one is popped: the task is left
  with the freed frame 2 on its call stack and a count of 1, the frame 3 stays allocated,
  and the next step of the task reads the freed frame.
\<close>

theorem caio_task_step_pushed_child_counterexample:
  "(case caio_task_step prog_push rt_one 0 of
      Inl f \<Rightarrow> None
    | Inr (r, rt) \<Rightarrow>
        Some (r, map_option (\<lambda>t. (stack (callstack t), running_coros t)) (task_heap rt 0),
              call_heap rt 2, call_heap rt 3, caio_task_step prog_push rt 0))
   = Some (0, Some ([2], 1), None, Some \<lparr>coro = 1, state = None\<rparr>, Inl InvalidPointer)"
  by (simp add: caio_eval rt_one_def prog_push_def)

text \<open>
  Claim C2, amended.  Let the task have a call stack whose innermost frame is \<open>call\<close>,
  and let the call of that frame's coroutine return with the task still allocated.  Then
  the step is determined by this one call (the program is not looked at anywhere else).
  When the coroutine is not done and \<open>running_coros\<close> is not zero, the step returns 0 and
  leaves the runtime as the coroutine left it.  When the coroutine is done and \<open>call\<close> is
  still the innermost frame, the step pops and frees \<open>call\<close>, and no other frame, and
  lowers \<open>running_coros\<close> by one.  Whenever \<open>running_coros\<close> is zero after that, also
  when the coroutine is not done, the step disposes of the task: the frames on its call
  stack, which are allocated and of which none is there twice, and the task are freed, and
  the slot \<open>index\<close> of the task table is emptied.
\<close>

theorem caio_task_step_top_frame:
  assumes "task_heap rt task = Some t" and "stack (callstack t) = fs @ [call]"
    and "call_heap rt call = Some c"
    and "prog (coro c) task (state c) rt = Inr (st, rt1)"
    and "task_heap rt1 task = Some t1"
  shows "(prog' (coro c) task (state c) rt = prog (coro c) task (state c) rt
            \<longrightarrow> caio_task_step prog' rt task = caio_task_step prog rt task)
     \<and> (st = ccs_not_done \<and> running_coros t1 \<noteq> 0
            \<longrightarrow> caio_task_step prog rt task = Inr (0, rt1))
     \<and> (st = ccs_done \<and> stack (callstack t1) = fs1 @ [call] \<and> call_heap rt1 call \<noteq> None
          \<and> running_coros t1 \<noteq> 1
            \<longrightarrow> caio_task_step prog rt task
                 = Inr (0, rt1\<lparr>call_heap := (call_heap rt1)(call := None),
                               task_heap := (task_heap rt1)(task \<mapsto>
                                 t1\<lparr>callstack := (callstack t1)\<lparr>stack := fs1\<rparr>,
                                    running_coros := running_coros t1 - 1\<rparr>)\<rparr>))
     \<and> (st = ccs_done \<and> stack (callstack t1) = fs1 @ [call] \<and> distinct (fs1 @ [call])
          \<and> (\<forall>a \<in> set (fs1 @ [call]). call_heap rt1 a \<noteq> None)
          \<and> running_coros t1 = 1 \<and> index t1 = Some (int i) \<and> i < size_a (g_tasks rt1)
            \<longrightarrow> caio_task_step prog rt task
                 = Inr (0, rt1\<lparr>call_heap := (\<lambda>a. if a \<in> set (fs1 @ [call]) then None
                                                else call_heap rt1 a),
                               task_heap := (task_heap rt1)(task := None),
                               g_tasks := caiotask_array_del (g_tasks rt1) (int i)\<rparr>)
               \<and> caiotask_array_get (caiotask_array_del (g_tasks rt1) (int i)) i = None)
     \<and> (st = ccs_not_done \<and> running_coros t1 = 0 \<and> distinct (stack (callstack t1))
          \<and> (\<forall>a \<in> set (stack (callstack t1)). call_heap rt1 a \<noteq> None)
          \<and> index t1 = Some (int i) \<and> i < size_a (g_tasks rt1)
            \<longrightarrow> caio_task_step prog rt task
                 = Inr (0, rt1\<lparr>call_heap := (\<lambda>a. if a \<in> set (stack (callstack t1)) then None
                                                else call_heap rt1 a),
                               task_heap := (task_heap rt1)(task := None),
                               g_tasks := caiotask_array_del (g_tasks rt1) (int i)\<rparr>)
               \<and> caiotask_array_get (caiotask_array_del (g_tasks rt1) (int i)) i = None)"
proof (intro conjI impI)
  assume "prog' (coro c) task (state c) rt = prog (coro c) task (state c) rt"
  with assms(1-3) show "caio_task_step prog' rt task = caio_task_step prog rt task"
    by (rule caio_task_step_cong)
next
  assume "st = ccs_not_done \<and> running_coros t1 \<noteq> 0"
  with assms show "caio_task_step prog rt task = Inr (0, rt1)"
    by (intro caio_task_step_not_done) auto
next
  assume "st = ccs_done \<and> stack (callstack t1) = fs1 @ [call] \<and> call_heap rt1 call \<noteq> None
      \<and> running_coros t1 \<noteq> 1"
  with assms show "caio_task_step prog rt task
      = Inr (0, rt1\<lparr>call_heap := (call_heap rt1)(call := None),
                    task_heap := (task_heap rt1)(task \<mapsto>
                      t1\<lparr>callstack := (callstack t1)\<lparr>stack := fs1\<rparr>,
                         running_coros := running_coros t1 - 1\<rparr>)\<rparr>)"
    by (intro caio_task_step_done) auto
next
  assume last: "st = ccs_done \<and> stack (callstack t1) = fs1 @ [call] \<and> distinct (fs1 @ [call])
      \<and> (\<forall>a \<in> set (fs1 @ [call]). call_heap rt1 a \<noteq> None)
      \<and> running_coros t1 = 1 \<and> index t1 = Some (int i) \<and> i < size_a (g_tasks rt1)"
  with assms show "caio_task_step prog rt task
      = Inr (0, rt1\<lparr>call_heap := (\<lambda>a. if a \<in> set (fs1 @ [call]) then None else call_heap rt1 a),
                    task_heap := (task_heap rt1)(task := None),
                    g_tasks := caiotask_array_del (g_tasks rt1) (int i)\<rparr>)"
    by (intro caio_task_step_last_done) auto
  from last show "caiotask_array_get (caiotask_array_del (g_tasks rt1) (int i)) i = None"
    by (simp add: caiotask_array_del_get)
next
  assume zero: "st = ccs_not_done \<and> running_coros t1 = 0 \<and> distinct (stack (callstack t1))
      \<and> (\<forall>a \<in> set (stack (callstack t1)). call_heap rt1 a \<noteq> None)
      \<and> index t1 = Some (int i) \<and> i < size_a (g_tasks rt1)"
  with assms show "caio_task_step prog rt task
      = Inr (0, rt1\<lparr>call_heap := (\<lambda>a. if a \<in> set (stack (callstack t1)) then None
                                     else call_heap rt1 a),
                    task_heap := (task_heap rt1)(task := None),
                    g_tasks := caiotask_array_del (g_tasks rt1) (int i)\<rparr>)"
    by (intro caio_task_step_not_done_zero) auto
  from zero show "caiotask_array_get (caiotask_array_del (g_tasks rt1) (int i)) i = None"
    by (simp add: caiotask_array_del_get)
qed

theorem caio_task_step_top_frame_witness:
  "caio_task_step prog_demo rt_demo 0
     = Inr (0, rt_demo\<lparr>call_heap := (call_heap rt_demo)(2 := None),
                       task_heap := (task_heap rt_demo)(0 := None),
                       g_tasks := [None, Some 3, Some 6]\<rparr>)
   \<and> caio_task_step prog_demo rt_demo 3
     = Inr (0, rt_demo\<lparr>app_mem := (app_mem rt_demo)(100 := 1)\<rparr>)
   \<and> caio_task_step prog_demo rt_demo 6
     = Inr (0, rt_demo\<lparr>call_heap := (call_heap rt_demo)(9 := None),
                       task_heap := (task_heap rt_demo)(6 \<mapsto>
                         \<lparr>index = Some 2, running_coros = 1,
                          callstack = \<lparr>stack = [8], size_s = 2\<rparr>\<rparr>)\<rparr>)
   \<and> caio_task_step prog_demo rt_zero 3
     = Inr (0, rt_demo\<lparr>app_mem := (app_mem rt_demo)(100 := 1),
                       call_heap := (call_heap rt_demo)(5 := None),
                       task_heap := (task_heap rt_demo)(3 := None),
                       g_tasks := [Some 0, None, Some 6]\<rparr>)"
proof -
  let ?tA = "\<lparr>index = Some 0, running_coros = 1, callstack = \<lparr>stack = [2], size_s = 2\<rparr>\<rparr>"
  let ?tB = "\<lparr>index = Some 1, running_coros = 1, callstack = \<lparr>stack = [5], size_s = 2\<rparr>\<rparr>"
  let ?tC = "\<lparr>index = Some 2, running_coros = 2, callstack = \<lparr>stack = [8, 9], size_s = 2\<rparr>\<rparr>"
  have A: "caio_task_step prog_demo rt_demo 0
     = Inr (0, rt_demo\<lparr>call_heap := (call_heap rt_demo)(2 := None),
                       task_heap := (task_heap rt_demo)(0 := None),
                       g_tasks := [None, Some 3, Some 6]\<rparr>)"
    using caio_task_step_top_frame [where rt = rt_demo and task = 0 and t = ?tA and fs = "[]"
        and call = 2 and c = "\<lparr>coro = 0, state = None\<rparr>" and prog = prog_demo
        and st = ccs_done and ?rt1.0 = rt_demo and ?t1.0 = ?tA and ?fs1.0 = "[]" and i = 0]
    by (simp add: rt_demo_def prog_demo_def caiotask_array_del_def size_a_def fun_eq_iff)
  have B: "caio_task_step prog_demo rt_demo 3
     = Inr (0, rt_demo\<lparr>app_mem := (app_mem rt_demo)(100 := 1)\<rparr>)"
    using caio_task_step_top_frame [where rt = rt_demo and task = 3 and t = ?tB and fs = "[]"
        and call = 5 and c = "\<lparr>coro = 1, state = Some 100\<rparr>" and prog = prog_demo
        and st = ccs_not_done and ?rt1.0 = "rt_demo\<lparr>app_mem := (app_mem rt_demo)(100 := 1)\<rparr>"
        and ?t1.0 = ?tB]
    by (simp add: rt_demo_def prog_demo_def)
  have C: "caio_task_step prog_demo rt_demo 6
     = Inr (0, rt_demo\<lparr>call_heap := (call_heap rt_demo)(9 := None),
                       task_heap := (task_heap rt_demo)(6 \<mapsto>
                         \<lparr>index = Some 2, running_coros = 1,
                          callstack = \<lparr>stack = [8], size_s = 2\<rparr>\<rparr>)\<rparr>)"
    using caio_task_step_top_frame [where rt = rt_demo and task = 6 and t = ?tC and fs = "[8]"
        and call = 9 and c = "\<lparr>coro = 0, state = None\<rparr>" and prog = prog_demo
        and st = ccs_done and ?rt1.0 = rt_demo and ?t1.0 = ?tC and ?fs1.0 = "[8]"]
    by (simp add: rt_demo_def prog_demo_def)
  let ?tD = "\<lparr>index = Some 1, running_coros = 0, callstack = \<lparr>stack = [5], size_s = 2\<rparr>\<rparr>"
  have D: "caio_task_step prog_demo rt_zero 3
     = Inr (0, rt_demo\<lparr>app_mem := (app_mem rt_demo)(100 := 1),
                       call_heap := (call_heap rt_demo)(5 := None),
                       task_heap := (task_heap rt_demo)(3 := None),
                       g_tasks := [Some 0, None, Some 6]\<rparr>)"
    using caio_task_step_top_frame [where rt = rt_zero and task = 3 and t = ?tD and fs = "[]"
        and call = 5 and c = "\<lparr>coro = 1, state = Some 100\<rparr>" and prog = prog_demo
        and st = ccs_not_done and ?rt1.0 = "rt_zero\<lparr>app_mem := (app_mem rt_zero)(100 := 1)\<rparr>"
        and ?t1.0 = ?tD and i = 1]
    by (simp add: rt_zero_def rt_demo_def prog_demo_def caiotask_array_del_def size_a_def
        fun_eq_iff)
  from A B C D show ?thesis
    by simp
qed

text \<open>
  Claim C6, amended.  \<open>caio_task_step\<close> is not a no-op on a task without frames: it
  has no guard.  On an allocated task whose call stack is empty it faults when it reads
  the top frame, and on a task that was disposed of it faults when it reads the task; in
  both cases no coroutine is called, whatever the program.  The runtime does not keep
  such a task: the step in which the last frame of a task is done frees the task and
  empties its slot of the task table, so that \<open>caio_forever\<close> does not find it again.
\<close>

theorem caio_task_step_empty_callstack:
  "(task_heap rt task = Some t \<and> stack (callstack t) = []
       \<longrightarrow> caio_task_step prog rt task = Inl NullDeref)
   \<and> (task_heap rt task = None \<longrightarrow> caio_task_step prog rt task = Inl InvalidPointer)
   \<and> (task_heap rt task = Some t \<and> stack (callstack t) = [call] \<and> call_heap rt call = Some c
        \<and> prog (coro c) task (state c) rt = Inr (ccs_done, rt1)
        \<and> task_heap rt1 task = Some t1 \<and> stack (callstack t1) = [call]
        \<and> call_heap rt1 call \<noteq> None \<and> running_coros t1 = 1
        \<and> index t1 = Some (int i) \<and> i < size_a (g_tasks rt1)
       \<longrightarrow> (\<exists>rt'. caio_task_step prog rt task = Inr (0, rt')
              \<and> task_heap rt' task = None \<and> caiotask_array_get (g_tasks rt') i = None))"
proof (intro conjI impI)
  assume "task_heap rt task = Some t \<and> stack (callstack t) = []"
  then show "caio_task_step prog rt task = Inl NullDeref"
    by (simp add: caio_task_step_def caiocall_stack_last_def)
next
  assume "task_heap rt task = None"
  then show "caio_task_step prog rt task = Inl InvalidPointer"
    by (simp add: caio_task_step_def)
next
  assume h: "task_heap rt task = Some t \<and> stack (callstack t) = [call] \<and> call_heap rt call = Some c
        \<and> prog (coro c) task (state c) rt = Inr (ccs_done, rt1)
        \<and> task_heap rt1 task = Some t1 \<and> stack (callstack t1) = [call]
        \<and> call_heap rt1 call \<noteq> None \<and> running_coros t1 = 1
        \<and> index t1 = Some (int i) \<and> i < size_a (g_tasks rt1)"
  then have "caio_task_step prog rt task
      = Inr (0, rt1\<lparr>call_heap := (\<lambda>a. if a \<in> set ([] @ [call]) then None else call_heap rt1 a),
                    task_heap := (task_heap rt1)(task := None),
                    g_tasks := caiotask_array_del (g_tasks rt1) (int i)\<rparr>)"
    by (intro caio_task_step_last_done [where fs = "[]" and t = t and c = c and ?t1.0 = t1]) auto
  with h show "\<exists>rt'. caio_task_step prog rt task = Inr (0, rt')
      \<and> task_heap rt' task = None \<and> caiotask_array_get (g_tasks rt') i = None"
    by (simp add: caiotask_array_del_get)
qed

theorem caio_task_step_empty_callstack_witness:
  "caio_task_step prog_demo rt_empty_stack 0 = Inl NullDeref
   \<and> caio_task_step prog_demo rt_empty_stack 1 = Inl InvalidPointer
   \<and> (\<exists>rt'. caio_task_step prog_demo rt_demo 0 = Inr (0, rt')
          \<and> task_heap rt' 0 = None \<and> caiotask_array_get (g_tasks rt') 0 = None)"
proof -
  let ?tA = "\<lparr>index = Some 0, running_coros = 1, callstack = \<lparr>stack = [2], size_s = 2\<rparr>\<rparr>"
  have "caio_task_step prog_demo rt_empty_stack 0 = Inl NullDeref"
    using caio_task_step_empty_callstack [where rt = rt_empty_stack and task = 0
        and t = "\<lparr>index = Some 0, running_coros = 0, callstack = \<lparr>stack = [], size_s = 2\<rparr>\<rparr>"
        and prog = prog_demo]
    by (simp add: rt_empty_stack_def)
  moreover have "caio_task_step prog_demo rt_empty_stack 1 = Inl InvalidPointer"
    using caio_task_step_empty_callstack [where rt = rt_empty_stack and task = 1
        and prog = prog_demo]
    by (simp add: rt_empty_stack_def)
  moreover have "\<exists>rt'. caio_task_step prog_demo rt_demo 0 = Inr (0, rt')
          \<and> task_heap rt' 0 = None \<and> caiotask_array_get (g_tasks rt') 0 = None"
    using caio_task_step_empty_callstack [where rt = rt_demo and task = 0 and t = ?tA
        and call = 2 and c = "\<lparr>coro = 0, state = None\<rparr>" and prog = prog_demo
        and ?rt1.0 = rt_demo and ?t1.0 = ?tA and i = 0]
    by (simp add: rt_demo_def prog_demo_def size_a_def)
  ultimately show ?thesis
    by simp
qed

subsection \<open>The scheduler\<close>

text \<open>
  What disposal and a step leave alone: the other tasks, and every slot of the table but
  the one that the task's \<open>index\<close> names.
\<close>

lemma caio_task_dispose_loop_frame:
  "\<lbrakk>task_heap rt task = Some t; caio_task_dispose_loop rt task = Inr rt'\<rbrakk>
   \<Longrightarrow> g_tasks rt' = g_tasks rt
       \<and> (\<forall>a. a \<noteq> task \<longrightarrow> task_heap rt' a = task_heap rt a)
       \<and> (\<exists>t'. task_heap rt' task = Some t' \<and> index t' = index t)"
proof (induction "length (stack (callstack t))" arbitrary: rt t)
  case 0
  then have "caio_task_dispose_loop rt task = Inr rt"
    by (subst caio_task_dispose_loop.simps) (simp add: count_s_def)
  with 0 show ?case
    by simp
next
  case (Suc n)
  let ?s = "(callstack t)\<lparr>stack := butlast (stack (callstack t))\<rparr>"
  let ?t1 = "t\<lparr>callstack := ?s\<rparr>"
  let ?rt1 = "rt\<lparr>task_heap := (task_heap rt)(task \<mapsto> ?t1)\<rparr>"
  let ?c = "last (stack (callstack t))"
  from Suc.hyps(2) have ne: "stack (callstack t) \<noteq> []"
    by auto
  have unfold: "caio_task_dispose_loop rt task
      = (case free_call ?rt1 ?c of Inl f \<Rightarrow> Inl f | Inr rt2 \<Rightarrow> caio_task_dispose_loop rt2 task)"
    using Suc.prems(1) ne
    by (subst caio_task_dispose_loop.simps) (simp add: count_s_def caiocall_stack_pop_def)
  with Suc.prems(2) obtain rt2 where fr: "free_call ?rt1 ?c = Inr rt2"
    and rec: "caio_task_dispose_loop rt2 task = Inr rt'"
    by (auto split: sum.splits)
  from fr have rt2: "task_heap rt2 = task_heap ?rt1" "g_tasks rt2 = g_tasks rt"
    by (auto simp: free_call_def split: option.splits)
  then have live2: "task_heap rt2 task = Some ?t1"
    by simp
  have "n = length (stack (callstack ?t1))"
    using Suc.hyps(2) by simp
  from Suc.hyps(1) [OF this live2 rec] rt2 show ?case
    by auto
qed

lemma caio_task_dispose_frame:
  assumes "task_heap rt task = Some t" and "index t = Some (int i)"
    and "caio_task_dispose rt task = Inr rt'"
  shows "g_tasks rt' = caiotask_array_del (g_tasks rt) (int i)
       \<and> (\<forall>a. a \<noteq> task \<longrightarrow> task_heap rt' a = task_heap rt a)"
proof -
  from assms(3) obtain rt1 where loop: "caio_task_dispose_loop rt task = Inr rt1"
    by (auto simp: caio_task_dispose_def split: sum.splits)
  from caio_task_dispose_loop_frame [OF assms(1) loop] assms(2)
  obtain t' where "g_tasks rt1 = g_tasks rt" "\<forall>a. a \<noteq> task \<longrightarrow> task_heap rt1 a = task_heap rt a"
    "task_heap rt1 task = Some t'" "index t' = Some (int i)"
    by auto
  with assms(3) loop show ?thesis
    by (auto simp: caio_task_dispose_def free_task_def)
qed

lemma caio_task_step_frame:
  assumes keeps: "keeps_table prog"
    and live: "task_heap rt task = Some t" and idx: "index t = Some (int i)"
    and step: "caio_task_step prog rt task = Inr (r, rt')"
  shows "(g_tasks rt' = g_tasks rt \<and> (\<exists>t'. task_heap rt' task = Some t' \<and> index t' = index t)
          \<or> g_tasks rt' = caiotask_array_del (g_tasks rt) (int i))
       \<and> (\<forall>a t0. a \<noteq> task \<and> task_heap rt a = Some t0 \<longrightarrow>
              (\<exists>t'. task_heap rt' a = Some t' \<and> index t' = index t0))"
proof -
  from step live obtain call c st rt1 where
      top: "caiocall_stack_last (callstack t) = Some call" "call_heap rt call = Some c"
    and inv: "prog (coro c) task (state c) rt = Inr (st, rt1)"
    by (auto simp: caio_task_step_def split: option.splits sum.splits)
  from keeps inv have tab1: "g_tasks rt1 = g_tasks rt"
    and heap1: "\<And>a t0. task_heap rt a = Some t0 \<Longrightarrow> \<exists>t'. task_heap rt1 a = Some t' \<and> index t' = index t0"
    unfolding keeps_table_def by blast+
  from heap1 [OF live] idx obtain t1 where live1: "task_heap rt1 task = Some t1"
    and idx1: "index t1 = Some (int i)"
    by auto
  define rt2 where "rt2 = (if st = ccs_done
      then rt1\<lparr>call_heap := (call_heap rt1)(call := None),
               task_heap := (task_heap rt1)(task \<mapsto>
                 t1\<lparr>callstack := snd (caiocall_stack_pop (callstack t1)),
                    running_coros := running_coros t1 - 1\<rparr>)\<rparr>
      else rt1)"
  have tab2: "g_tasks rt2 = g_tasks rt"
    and other2: "\<And>a. a \<noteq> task \<Longrightarrow> task_heap rt2 a = task_heap rt1 a"
    by (simp_all add: rt2_def tab1)
  obtain t2 where live2: "task_heap rt2 task = Some t2" and idx2: "index t2 = Some (int i)"
    using live1 idx1 by (cases "st = ccs_done") (auto simp: rt2_def)
  have fin: "(if running_coros t2 = 0
        then (case caio_task_dispose rt2 task of Inl f \<Rightarrow> Inl f | Inr rt3 \<Rightarrow> Inr (0, rt3))
        else Inr (0, rt2)) = Inr (r, rt')"
    using step live top inv live1 live2
    by (auto simp: caio_task_step_def rt2_def free_call_def split: option.splits sum.splits if_splits)
  show ?thesis
  proof (cases "running_coros t2 = 0")
    case False
    with fin have "rt' = rt2"
      by simp
    with tab2 other2 live2 idx2 idx heap1 show ?thesis
      by auto
  next
    case True
    with fin have disp: "caio_task_dispose rt2 task = Inr rt'"
      by (auto split: sum.splits)
    from caio_task_dispose_frame [OF live2 idx2 disp] tab2 other2 heap1 show ?thesis
      by auto
  qed
qed

text \<open>
  A step of the task in slot \<open>i\<close> of a well-formed table, by a program that keeps the
  table, leaves the table well formed, keeps its size and changes no slot but \<open>i\<close>.
\<close>

lemma caio_task_step_table:
  assumes keeps: "keeps_table prog" and ok: "table_ok rt"
    and slot: "i < size_a (g_tasks rt)" "g_tasks rt ! i = Some task"
    and step: "caio_task_step prog rt task = Inr (r, rt')"
  shows "table_ok rt' \<and> size_a (g_tasks rt') = size_a (g_tasks rt)
       \<and> (\<forall>j. j \<noteq> i \<longrightarrow> g_tasks rt' ! j = g_tasks rt ! j)"
proof -
  from ok slot obtain t where live: "task_heap rt task = Some t" and idx: "index t = Some (int i)"
    unfolding table_ok_def by blast
  have elsewhere: "\<exists>t'. task_heap rt' a = Some t' \<and> index t' = Some (int j)"
    if "j < size_a (g_tasks rt)" "g_tasks rt ! j = Some a" "j \<noteq> i" for a j
  proof -
    from ok that obtain t0 where t0: "task_heap rt a = Some t0" "index t0 = Some (int j)"
      unfolding table_ok_def by blast
    with idx live that have "a \<noteq> task"
      by auto
    moreover from caio_task_step_frame [OF keeps live idx step]
    have "\<forall>a t0. a \<noteq> task \<and> task_heap rt a = Some t0 \<longrightarrow>
        (\<exists>t'. task_heap rt' a = Some t' \<and> index t' = index t0)"
      by simp
    ultimately show ?thesis
      using t0 by metis
  qed
  from caio_task_step_frame [OF keeps live idx step]
  consider (kept) t' where "g_tasks rt' = g_tasks rt" "task_heap rt' task = Some t'" "index t' = index t"
    | (gone) "g_tasks rt' = caiotask_array_del (g_tasks rt) (int i)"
    by auto
  then show ?thesis
  proof cases
    case kept
    have "\<exists>t'. task_heap rt' a = Some t' \<and> index t' = Some (int j)"
      if "j < size_a (g_tasks rt)" "g_tasks rt ! j = Some a" for a j
    proof (cases "j = i")
      case True
      with that slot kept idx show ?thesis by simp
    next
      case False
      with that show ?thesis by (rule elsewhere)
    qed
    with kept show ?thesis
      by (simp add: table_ok_def)
  next
    case gone
    with slot have tab: "g_tasks rt' = (g_tasks rt)[i := None]"
      by (simp add: caiotask_array_del_def)
    have "\<exists>t'. task_heap rt' a = Some t' \<and> index t' = Some (int j)"
      if "j < size_a (g_tasks rt)" "(g_tasks rt)[i := None] ! j = Some a" for a j
    proof (cases "j = i")
      case True
      with that show ?thesis by (simp add: size_a_def)
    next
      case False
      with that show ?thesis by (intro elsewhere) simp_all
    qed
    with tab show ?thesis
      by (simp add: table_ok_def size_a_def)
  qed
qed

text \<open>
  For every program: the indices that a sweep steps come in strictly ascending order, so
  that none is stepped twice.
\<close>

lemma caio_forever_sweep_ascending_aux:
  assumes "caio_forever_sweep prog i acc rt = Some res"
  shows "\<forall>stepped rt'. res = Inr (stepped, rt') \<longrightarrow>
      (\<exists>new. stepped = acc @ new \<and> sorted_wrt (<) new \<and> (\<forall>j \<in> set new. i \<le> j))"
  using assms
proof (induction rule: caio_forever_sweep.raw_induct [rotated 1, consumes 1])
  case (1 sweep prog i acc rt res)
  show ?case
  proof (intro allI impI)
  fix stepped rt'
  assume res: "res = Inr (stepped, rt')"
  show "\<exists>new. stepped = acc @ new \<and> sorted_wrt (<) new \<and> (\<forall>j \<in> set new. i \<le> j)"
  proof (cases "i < size_a (g_tasks rt)")
    case False
    with "1.hyps" res show ?thesis by simp
  next
    case inside: True
    show ?thesis
    proof (cases "caiotask_array_get (g_tasks rt) i")
      case None
      with "1.hyps" inside res
      have "sweep prog (i + 1) acc rt = Some (Inr (stepped, rt'))"
        by (simp split: if_splits)
      from "1.IH" [OF this] obtain new where
        "stepped = acc @ new" "sorted_wrt (<) new" "\<forall>j \<in> set new. i + 1 \<le> j"
        by blast
      then show ?thesis by fastforce
    next
      case (Some task)
      with "1.hyps" inside res obtain r rt1 where
        "sweep prog (i + 1) (acc @ [i]) rt1 = Some (Inr (stepped, rt'))"
        by (auto split: sum.splits if_splits)
      from "1.IH" [OF this] obtain new where
        new: "stepped = (acc @ [i]) @ new" "sorted_wrt (<) new" "\<forall>j \<in> set new. i + 1 \<le> j"
        by blast
      then have "stepped = acc @ (i # new)" "sorted_wrt (<) (i # new)" "\<forall>j \<in> set (i # new). i \<le> j"
        by auto
      then show ?thesis by blast
    qed
  qed
  qed
qed

lemma caio_forever_sweep_ascending:
  assumes "caio_forever_sweep prog i acc rt = Some (Inr (stepped, rt'))"
  shows "\<exists>new. stepped = acc @ new \<and> sorted_wrt (<) new \<and> (\<forall>j \<in> set new. i \<le> j)"
  using caio_forever_sweep_ascending_aux [OF assms] by simp

text \<open>
  For a program that keeps the table: a sweep that starts at index \<open>i\<close> steps the
  occupied slots from \<open>i\<close> on, each once, in ascending order; and it returns.
\<close>

lemma caio_forever_sweep_steps_occupied_aux:
  assumes "caio_forever_sweep prog i acc rt = Some res"
    and "keeps_table prog" and "table_ok rt"
  shows "\<forall>stepped rt'. res = Inr (stepped, rt') \<longrightarrow>
       stepped = acc @ filter (\<lambda>j. g_tasks rt ! j \<noteq> None) [i..<size_a (g_tasks rt)]
       \<and> table_ok rt' \<and> size_a (g_tasks rt') = size_a (g_tasks rt)"
  using assms
proof (induction rule: caio_forever_sweep.raw_induct [rotated 1, consumes 1])
  case (1 sweep prog i acc rt res)
  show ?case
  proof (intro allI impI)
  fix stepped rt'
  assume res: "res = Inr (stepped, rt')"
  show "stepped = acc @ filter (\<lambda>j. g_tasks rt ! j \<noteq> None) [i..<size_a (g_tasks rt)]
       \<and> table_ok rt' \<and> size_a (g_tasks rt') = size_a (g_tasks rt)"
  proof (cases "i < size_a (g_tasks rt)")
    case False
    with "1.hyps" "1.prems" res show ?thesis by simp
  next
    case inside: True
    then have upt: "[i..<size_a (g_tasks rt)] = i # [i + 1..<size_a (g_tasks rt)]"
      by (simp add: upt_conv_Cons)
    show ?thesis
    proof (cases "g_tasks rt ! i")
      case None
      with "1.hyps" inside res
      have "sweep prog (i + 1) acc rt = Some (Inr (stepped, rt'))"
        by (simp add: caiotask_array_get_def split: if_splits)
      from "1.IH" [OF this "1.prems"] None upt show ?thesis
        by simp
    next
      case (Some task)
      with "1.hyps" inside res obtain r rt1 where
        step: "caio_task_step prog rt task = Inr (r, rt1)"
        and rest: "sweep prog (i + 1) (acc @ [i]) rt1 = Some (Inr (stepped, rt'))"
        by (auto simp: caiotask_array_get_def split: sum.splits if_splits)
      from caio_task_step_table [OF "1.prems" inside Some step]
      have ok1: "table_ok rt1" and size1: "size_a (g_tasks rt1) = size_a (g_tasks rt)"
        and same: "\<forall>j. j \<noteq> i \<longrightarrow> g_tasks rt1 ! j = g_tasks rt ! j"
        by simp_all
      from same have "filter (\<lambda>j. g_tasks rt1 ! j \<noteq> None) [i + 1..<size_a (g_tasks rt)]
          = filter (\<lambda>j. g_tasks rt ! j \<noteq> None) [i + 1..<size_a (g_tasks rt)]"
        by (intro filter_cong) auto
      with "1.IH" [OF rest "1.prems"(1) ok1] size1 Some upt show ?thesis
        by simp
    qed
  qed
  qed
qed

lemma caio_forever_sweep_steps_occupied:
  assumes "caio_forever_sweep prog i acc rt = Some (Inr (stepped, rt'))"
    and "keeps_table prog" and "table_ok rt"
  shows "stepped = acc @ filter (\<lambda>j. g_tasks rt ! j \<noteq> None) [i..<size_a (g_tasks rt)]
       \<and> table_ok rt' \<and> size_a (g_tasks rt') = size_a (g_tasks rt)"
  using caio_forever_sweep_steps_occupied_aux [OF assms] by simp

lemma caio_forever_sweep_returns:
  assumes "keeps_table prog" and "table_ok rt"
  shows "\<exists>res. caio_forever_sweep prog i acc rt = Some res"
  using assms(2)
proof (induction "size_a (g_tasks rt) - i" arbitrary: i acc rt)
  case 0
  then show ?case
    by (subst caio_forever_sweep.simps) simp
next
  case (Suc n)
  then have inside: "i < size_a (g_tasks rt)"
    by simp
  show ?case
  proof (cases "g_tasks rt ! i")
    case None
    from Suc.hyps(2) have "n = size_a (g_tasks rt) - (i + 1)"
      by simp
    from Suc.hyps(1) [OF this Suc.prems] None inside show ?thesis
      by (subst caio_forever_sweep.simps) (simp add: caiotask_array_get_def)
  next
    case (Some task)
    show ?thesis
    proof (cases "caio_task_step prog rt task")
      case (Inl f)
      with Some inside show ?thesis
        by (subst caio_forever_sweep.simps) (simp add: caiotask_array_get_def)
    next
      case (Inr res)
      then obtain r rt1 where step: "caio_task_step prog rt task = Inr (r, rt1)"
        by (cases res) simp
      from caio_task_step_table [OF assms(1) Suc.prems inside Some step]
      have ok1: "table_ok rt1" and size1: "size_a (g_tasks rt1) = size_a (g_tasks rt)"
        by simp_all
      with Suc.hyps(2) have "n = size_a (g_tasks rt1) - (i + 1)"
        by simp
      from Suc.hyps(1) [OF this ok1] step Some inside show ?thesis
        by (subst caio_forever_sweep.simps) (simp add: caiotask_array_get_def)
    qed
  qed
qed

text \<open>The \<open>while\<close> loop of \<open>caio_forever\<close>.\<close>

lemma count_a_zero: "(count_a a = 0) = (\<forall>i < size_a a. a ! i = None)"
  by (simp add: count_a_def size_a_def filter_empty_conv all_set_conv_all_nth)

lemma caio_forever_idle:
  "count_a (g_tasks rt) = 0 \<Longrightarrow> caio_forever prog rt = Some (Inr (EXIT_SUCCESS, rt))"
  by (subst caio_forever.simps) simp

lemma caio_forever_again:
  "\<lbrakk>count_a (g_tasks rt) \<noteq> 0; caio_forever_sweep prog 0 [] rt = Some (Inr (stepped, rt'))\<rbrakk>
   \<Longrightarrow> caio_forever prog rt = caio_forever prog rt'"
  by (subst caio_forever.simps) simp

lemma caio_forever_result_aux:
  assumes "caio_forever prog rt = Some res"
  shows "\<forall>r rt'. res = Inr (r, rt') \<longrightarrow> r = EXIT_SUCCESS \<and> count_a (g_tasks rt') = 0"
  using assms
proof (induction rule: caio_forever.raw_induct [rotated 1, consumes 1])
  case (1 forever prog rt res)
  show ?case
  proof (cases "count_a (g_tasks rt) = 0")
    case True
    with "1.hyps" show ?thesis by auto
  next
    case False
    with "1.hyps" have "(\<exists>f. res = Inl f) \<or> (\<exists>rt1. forever prog rt1 = Some res)"
      by (auto split: option.splits sum.splits)
    with "1.IH" show ?thesis by auto
  qed
qed

lemma caio_forever_result:
  assumes "caio_forever prog rt = Some (Inr (r, rt'))"
  shows "r = EXIT_SUCCESS \<and> count_a (g_tasks rt') = 0"
  using caio_forever_result_aux [OF assms] by simp

text \<open>
  For every program, along the course of a sweep: from a point that the sweep reaches it
  goes on as the loop does from there; the slots stepped so far lie below the index; every
  smaller index was reached before, inside the table; and a sweep that returns has reached
  the end of the table.  So a slot is stepped once when it is occupied at the moment the
  sweep reaches it, and not at all when it is empty then.
\<close>

lemma caio_forever_sweep_reaches_eq:
  "caio_forever_sweep_reaches prog rt i stepped s \<Longrightarrow>
     caio_forever_sweep prog 0 [] rt = caio_forever_sweep prog i stepped s"
proof (induction rule: caio_forever_sweep_reaches.induct)
  case start
  show ?case by simp
next
  case (skip i stepped s)
  then have "caio_forever_sweep prog i stepped s = caio_forever_sweep prog (i + 1) stepped s"
    by (subst caio_forever_sweep.simps) simp
  with skip.IH show ?case by simp
next
  case (step i stepped s task r s')
  then have "caio_forever_sweep prog i stepped s
      = caio_forever_sweep prog (i + 1) (stepped @ [i]) s'"
    by (subst caio_forever_sweep.simps) simp
  with step.IH show ?case by simp
qed

lemma caio_forever_sweep_reaches_below:
  "caio_forever_sweep_reaches prog rt i stepped s \<Longrightarrow> \<forall>j \<in> set stepped. j < i"
  by (induction rule: caio_forever_sweep_reaches.induct) auto

lemma caio_forever_sweep_reaches_before:
  "\<lbrakk>caio_forever_sweep_reaches prog rt n stepped s; i < n\<rbrakk>
   \<Longrightarrow> \<exists>stepped' s'. caio_forever_sweep_reaches prog rt i stepped' s' \<and> i < size_a (g_tasks s')"
proof (induction rule: caio_forever_sweep_reaches.induct)
  case start
  then show ?case by simp
next
  case (skip j stepped s)
  show ?case
  proof (cases "i = j")
    case True
    with skip.hyps show ?thesis by blast
  next
    case False
    with skip.prems have "i < j" by simp
    then show ?thesis by (rule skip.IH)
  qed
next
  case (step j stepped s task r s')
  show ?case
  proof (cases "i = j")
    case True
    with step.hyps show ?thesis by blast
  next
    case False
    with step.prems have "i < j" by simp
    then show ?thesis by (rule step.IH)
  qed
qed

lemma caio_forever_sweep_reaches_end_aux:
  assumes "caio_forever_sweep prog i acc s = Some res"
    and "caio_forever_sweep_reaches prog rt i acc s"
  shows "\<forall>stepped rt'. res = Inr (stepped, rt') \<longrightarrow>
      (\<exists>n. caio_forever_sweep_reaches prog rt n stepped rt' \<and> \<not> n < size_a (g_tasks rt'))"
  using assms
proof (induction rule: caio_forever_sweep.raw_induct [rotated 1, consumes 1])
  case (1 sweep prog i acc s res)
  show ?case
  proof (intro allI impI)
    fix stepped rt'
    assume res: "res = Inr (stepped, rt')"
    show "\<exists>n. caio_forever_sweep_reaches prog rt n stepped rt' \<and> \<not> n < size_a (g_tasks rt')"
    proof (cases "i < size_a (g_tasks s)")
      case False
      with "1.hyps" res "1.prems" show ?thesis by auto
    next
      case inside: True
      show ?thesis
      proof (cases "caiotask_array_get (g_tasks s) i")
        case None
        with "1.hyps" inside res
        have more: "i \<noteq> INT_MAX" and rest: "sweep prog (i + 1) acc s = Some res"
          by (auto split: if_splits)
        from "1.prems" inside None more
        have "caio_forever_sweep_reaches prog rt (i + 1) acc s"
          by (rule caio_forever_sweep_reaches.skip)
        from "1.IH" [OF rest this] res show ?thesis by simp
      next
        case (Some task)
        with "1.hyps" inside res obtain r s1 where
          stp: "caio_task_step prog s task = Inr (r, s1)" and more: "i \<noteq> INT_MAX"
          and rest: "sweep prog (i + 1) (acc @ [i]) s1 = Some res"
          by (auto split: sum.splits if_splits)
        from "1.prems" inside Some stp more
        have "caio_forever_sweep_reaches prog rt (i + 1) (acc @ [i]) s1"
          by (rule caio_forever_sweep_reaches.step)
        from "1.IH" [OF rest this] res show ?thesis by simp
      qed
    qed
  qed
qed

lemma caio_forever_sweep_once:
  assumes sweep: "caio_forever_sweep prog 0 [] rt = Some (Inr (stepped, rt'))"
    and reach: "caio_forever_sweep_reaches prog rt i acc s"
    and inside: "i < size_a (g_tasks s)"
  shows "count_list stepped i = (if caiotask_array_get (g_tasks s) i = None then 0 else 1)"
proof -
  from sweep reach have here: "caio_forever_sweep prog i acc s = Some (Inr (stepped, rt'))"
    by (simp add: caio_forever_sweep_reaches_eq)
  from reach have below: "i \<notin> set acc"
    by (auto dest: caio_forever_sweep_reaches_below)
  show ?thesis
  proof (cases "caiotask_array_get (g_tasks s) i")
    case None
    with here inside have "caio_forever_sweep prog (i + 1) acc s = Some (Inr (stepped, rt'))"
      by (subst (asm) caio_forever_sweep.simps) (simp split: if_splits)
    from caio_forever_sweep_ascending [OF this] obtain new where
      "stepped = acc @ new" "\<forall>j \<in> set new. i + 1 \<le> j"
      by blast
    with below have "i \<notin> set stepped"
      by auto
    with None show ?thesis
      by (simp add: count_list_0_iff)
  next
    case (Some task)
    with here inside obtain r s1 where
      "caio_forever_sweep prog (i + 1) (acc @ [i]) s1 = Some (Inr (stepped, rt'))"
      by (subst (asm) caio_forever_sweep.simps) (auto split: sum.splits if_splits)
    from caio_forever_sweep_ascending [OF this] obtain new where
      new: "stepped = (acc @ [i]) @ new" "\<forall>j \<in> set new. i + 1 \<le> j"
      by blast
    then have "i \<notin> set new"
      by auto
    with below new(1) have "count_list stepped i = 1"
      by (simp add: count_list_0_iff)
    with Some show ?thesis
      by simp
  qed
qed

text \<open>
  \<open>caio_forever\<close> returns exactly when some number of sweeps brings the count of the
  table to zero.
\<close>

lemma caio_forever_after_sweeps:
  "\<lbrakk>caio_forever_sweeps prog n rt = Some rt'; count_a (g_tasks rt') = 0\<rbrakk>
   \<Longrightarrow> caio_forever prog rt = Some (Inr (EXIT_SUCCESS, rt'))"
proof (induction n arbitrary: rt)
  case 0
  then show ?case
    by (simp add: caio_forever_idle)
next
  case (Suc n)
  from Suc.prems(1) obtain stepped rt1 where live: "count_a (g_tasks rt) \<noteq> 0"
    and sweep: "caio_forever_sweep prog 0 [] rt = Some (Inr (stepped, rt1))"
    and rest: "caio_forever_sweeps prog n rt1 = Some rt'"
    by (auto split: if_splits option.splits sum.splits)
  from Suc.IH [OF rest Suc.prems(2)] caio_forever_again [OF live sweep] show ?case
    by simp
qed

lemma caio_forever_sweeps_aux:
  assumes "caio_forever prog rt = Some res"
  shows "\<forall>r rt'. res = Inr (r, rt') \<longrightarrow> (\<exists>n. caio_forever_sweeps prog n rt = Some rt')"
  using assms
proof (induction rule: caio_forever.raw_induct [rotated 1, consumes 1])
  case (1 forever prog rt res)
  show ?case
  proof (cases "count_a (g_tasks rt) = 0")
    case True
    with "1.hyps" have "res = Inr (EXIT_SUCCESS, rt)"
      by simp
    moreover have "caio_forever_sweeps prog 0 rt = Some rt"
      by simp
    ultimately show ?thesis
      by blast
  next
    case False
    show ?thesis
    proof (intro allI impI)
      fix r rt'
      assume res: "res = Inr (r, rt')"
      with "1.hyps" False obtain stepped rt1 where
        sweep: "caio_forever_sweep prog 0 [] rt = Some (Inr (stepped, rt1))"
        and rest: "forever prog rt1 = Some res"
        by (auto split: option.splits sum.splits)
      from "1.IH" [OF rest] res obtain n where "caio_forever_sweeps prog n rt1 = Some rt'"
        by blast
      with False sweep have "caio_forever_sweeps prog (Suc n) rt = Some rt'"
        by simp
      then show "\<exists>n. caio_forever_sweeps prog n rt = Some rt'" ..
    qed
  qed
qed

lemma caio_forever_returns_iff:
  "(\<exists>rt'. caio_forever prog rt = Some (Inr (EXIT_SUCCESS, rt')))
     = (\<exists>n rt'. caio_forever_sweeps prog n rt = Some rt' \<and> count_a (g_tasks rt') = 0)"
proof
  assume "\<exists>rt'. caio_forever prog rt = Some (Inr (EXIT_SUCCESS, rt'))"
  then obtain rt' where ret: "caio_forever prog rt = Some (Inr (EXIT_SUCCESS, rt'))"
    by blast
  from caio_forever_sweeps_aux [OF ret] obtain n where "caio_forever_sweeps prog n rt = Some rt'"
    by blast
  with caio_forever_result [OF ret]
  show "\<exists>n rt'. caio_forever_sweeps prog n rt = Some rt' \<and> count_a (g_tasks rt') = 0"
    by blast
next
  assume "\<exists>n rt'. caio_forever_sweeps prog n rt = Some rt' \<and> count_a (g_tasks rt') = 0"
  then show "\<exists>rt'. caio_forever prog rt = Some (Inr (EXIT_SUCCESS, rt'))"
    by (blast intro: caio_forever_after_sweeps)
qed



end
